theory Spec2Isabelle
  imports Main "HOL-Library.Char_ord" "HOL-Library.List_Lexorder" "HOL-Library.AList"
begin

section \<open>Reference resolver: \<open>resolveCQL\<close>\<close>

text \<open>
  References are Python 2 strings, modelled as \<^typ>\<open>string\<close> (a list of 8-bit characters).
  The four module-level patterns are applied with \<open>re.search\<close>, without flags:
  \<^item> \<open>SPACE_PAGE_REF = ^([A-Z]*):(.*)$\<close>
  \<^item> \<open>PAGE_REF = ^:(.*)$\<close>
  \<^item> \<open>PAGE_ID = ^(\d+)$\<close>
  \<^item> \<open>PAGE_URI = api/content/(\d+)$\<close>

  Without \<open>re.MULTILINE\<close>, \<open>^\<close> matches only at position 0 and \<open>$\<close> matches at the very
  end of the string or just before one final newline; without \<open>re.DOTALL\<close>, \<open>.\<close> matches
  every character but the newline; \<open>\d\<close> is \<open>[0-9]\<close>. Each matcher returns the groups of the
  match (what \<open>match\<close> stores in \<open>self.mob\<close>), or \<open>None\<close> when the search fails.
\<close>

definition newline :: char where
  "newline = CHR 0x0A"

definition is_upper :: "char \<Rightarrow> bool" where
  "is_upper c = (CHR ''A'' \<le> c \<and> c \<le> CHR ''Z'')"

definition is_digit :: "char \<Rightarrow> bool" where
  "is_digit c = (CHR ''0'' \<le> c \<and> c \<le> CHR ''9'')"

definition is_dot :: "char \<Rightarrow> bool" where
  "is_dot c = (c \<noteq> newline)"

text \<open>\<open>$\<close> holds at a position iff what follows is empty or is one final newline.\<close>

definition at_dollar :: "string \<Rightarrow> bool" where
  "at_dollar rest = (rest = [] \<or> rest = [newline])"

text \<open>
  \<open>(.*)$\<close> from a position: the greedy \<open>.*\<close> takes the longest run of non-newline characters;
  giving characters back cannot help, since \<open>$\<close> would then stand before a non-newline
  character.
\<close>

definition dot_star_dollar :: "string \<Rightarrow> string option" where
  "dot_star_dollar s =
     (if at_dollar (dropWhile is_dot s) then Some (takeWhile is_dot s) else None)"

text \<open>\<open>(\d+)$\<close> from a position: one or more digits, then \<open>$\<close>.\<close>

definition digits_dollar :: "string \<Rightarrow> string option" where
  "digits_dollar s =
     (if takeWhile is_digit s \<noteq> [] \<and> at_dollar (dropWhile is_digit s)
      then Some (takeWhile is_digit s) else None)"

text \<open>
  \<open>^([A-Z]*):(.*)$\<close>: the greedy \<open>[A-Z]*\<close> takes the longest run of upper-case letters (possibly
  empty); a shorter run would have to be followed by a colon where an upper-case letter stands.
\<close>

definition SPACE_PAGE_REF :: "string \<Rightarrow> (string \<times> string) option" where
  "SPACE_PAGE_REF ref =
     (case dropWhile is_upper ref of
        [] \<Rightarrow> None
      | c # rest \<Rightarrow>
          if c = CHR '':'' then
            (case dot_star_dollar rest of
               None \<Rightarrow> None
             | Some title \<Rightarrow> Some (takeWhile is_upper ref, title))
          else None)"

definition PAGE_REF :: "string \<Rightarrow> string option" where
  "PAGE_REF ref =
     (case ref of
        [] \<Rightarrow> None
      | c # rest \<Rightarrow> if c = CHR '':'' then dot_star_dollar rest else None)"

definition PAGE_ID :: "string \<Rightarrow> string option" where
  "PAGE_ID ref = digits_dollar ref"

fun strip_prefix :: "string \<Rightarrow> string \<Rightarrow> string option" where
  "strip_prefix [] s = Some s"
| "strip_prefix (p # ps) [] = None"
| "strip_prefix (p # ps) (c # cs) = (if p = c then strip_prefix ps cs else None)"

definition PAGE_URI_at :: "string \<Rightarrow> string option" where
  "PAGE_URI_at s =
     (case strip_prefix ''api/content/'' s of
        None \<Rightarrow> None
      | Some rest \<Rightarrow> digits_dollar rest)"

text \<open>\<open>re.search\<close> tries the start positions from left to right.\<close>

fun PAGE_URI :: "string \<Rightarrow> string option" where
  "PAGE_URI [] = PAGE_URI_at []"
| "PAGE_URI (c # cs) =
     (case PAGE_URI_at (c # cs) of
        Some ds \<Rightarrow> Some ds
      | None \<Rightarrow> PAGE_URI cs)"

text \<open>
  \<open>resolveCQL\<close> (lines 361-399). The argument is a string; the source stringifies any other
  value first. The format strings are the literals of the source, with their spacing:
  two spaces stand between \<open>title\<close> or \<open>ID\<close> and the equals sign.
\<close>

definition resolveCQL :: "string \<Rightarrow> string" where
  \<open>resolveCQL ref =
     (case SPACE_PAGE_REF ref of
        Some (key, title) \<Rightarrow> ''space = '' @ key @ '' AND title  = "'' @ title @ ''"''
      | None \<Rightarrow>
     (case PAGE_REF ref of
        Some title \<Rightarrow> ''title  = "'' @ title @ ''"''
      | None \<Rightarrow>
     (case PAGE_ID ref of
        Some ds \<Rightarrow> ''ID  = '' @ ds
      | None \<Rightarrow>
     (case PAGE_URI ref of
        Some ds \<Rightarrow> ''ID  = '' @ ds
      | None \<Rightarrow> ref))))\<close>

subsection \<open>The known patterns as the specification words them\<close>

text \<open>
  The four patterns by the shape of the reference itself: a space key of one or more
  upper-case letters, a colon and a title; a leading colon and a title; decimal digits
  only; an end that is the content path segment followed by decimal digits. A reference is
  known when it has one of these shapes.
\<close>

definition spec_space_title :: "string \<Rightarrow> bool" where
  "spec_space_title ref =
     (takeWhile is_upper ref \<noteq> []
      \<and> (case dropWhile is_upper ref of [] \<Rightarrow> False | c # title \<Rightarrow> c = CHR '':''))"

definition spec_title :: "string \<Rightarrow> bool" where
  "spec_title ref = (case ref of [] \<Rightarrow> False | c # title \<Rightarrow> c = CHR '':'')"

definition spec_digits :: "string \<Rightarrow> bool" where
  "spec_digits ref = (ref \<noteq> [] \<and> list_all is_digit ref)"

definition spec_content_uri :: "string \<Rightarrow> bool" where
  "spec_content_uri ref =
     (takeWhile is_digit (rev ref) \<noteq> []
      \<and> strip_prefix (rev ''api/content/'') (dropWhile is_digit (rev ref)) \<noteq> None)"

definition spec_known :: "string \<Rightarrow> bool" where
  "spec_known ref =
     (spec_space_title ref \<or> spec_title ref \<or> spec_digits ref \<or> spec_content_uri ref)"

text \<open>The last character of the reference is a newline.\<close>

definition ends_with_newline :: "string \<Rightarrow> bool" where
  "ends_with_newline ref = (ref \<noteq> [] \<and> last ref = newline)"

section \<open>The remote service and the request layer\<close>

text \<open>
  Exceptions are values. \<open>ConfluenceError\<close> carries \<open>response.text\<close>; \<open>StandardError\<close> stands
  for whatever the HTTP session raises (\<open>request\<close> logs it and re-raises it); the rest are
  the built-in exceptions the modelled code can raise.
\<close>

datatype error =
    ConfluenceError string
  | StandardError string
  | AssertionError
  | AttributeError string
  | KeyError string
  | NameError string
  | TypeError string

text \<open>
  A content item as the code reads it from the decoded JSON: \<open>['id']\<close>, \<open>['title']\<close>,
  \<open>['version']['number']\<close> and \<open>['body']['storage']['value']\<close>.
\<close>

record page =
  pg_id :: string
  pg_title :: string
  pg_version :: int
  pg_storage :: string

text \<open>
  The decoded body of a response: one content item, a listing with its \<open>results\<close>, \<open>size\<close>
  and \<open>limit\<close>, or the empty dictionary. Reading a key that the value does not have raises
  \<open>KeyError\<close>.
\<close>

datatype payload =
    Item page
  | Listing "page list" int int
  | Empty

datatype http_method = GET | PUT | POST | DELETE

text \<open>The \<open>expand\<close> argument: a string, or a list that is joined with commas.\<close>

datatype expand = ExpandStr string | ExpandList "string list"

fun join_comma :: "string list \<Rightarrow> string" where
  "join_comma [] = []"
| "join_comma [x] = x"
| "join_comma (x # y # ys) = x @ '','' @ join_comma (y # ys)"

fun join_expand :: "expand \<Rightarrow> string" where
  "join_expand (ExpandStr s) = s"
| "join_expand (ExpandList xs) = join_comma xs"

text \<open>
  The keyword arguments a method hands to \<open>request\<close>: \<open>expand\<close>; \<open>cql\<close>, \<open>expand\<close>, \<open>limit\<close> and
  \<open>start\<close> of a search; \<open>title\<close>, the key of \<open>space\<close>, the storage body and the parent (the one
  ancestor) of a page to create; the number of \<open>version\<close>, \<open>type\<close>, \<open>title\<close> and the storage body
  of an update.
\<close>

datatype params =
    ExpandParams string
  | SearchParams string string int int
  | CreateParams string "string option" string "string option"
  | UpdateParams int string string string

text \<open>A response: \<open>status_code\<close>, \<open>text\<close> and the value of \<open>json()\<close>.\<close>

record response =
  status_code :: int
  resp_text :: string
  resp_json :: payload

text \<open>
  The calls of API methods with their arguments: \<open>getPage(page_id, expand)\<close>,
  \<open>createPage(space, title, storage, parent)\<close>, \<open>updatePage(id, title, version, storage)\<close>,
  \<open>getChildren(page_id, type)\<close>, \<open>deletePage(id)\<close> and \<open>findPages\<close> with the query, \<open>expand\<close>,
  \<open>limit\<close> and \<open>start\<close> it sends. A world is the list of the calls made so far, in order, and
  the state of the remote service; the properties of the synchronizer and of the iterator
  are stated on the calls.
\<close>

datatype call =
    GetPage string string
  | CreatePage "string option" string string "string option"
  | UpdatePage string string int string
  | GetChildren string "string option"
  | DeletePage string
  | FindPages string string int int

record 'r world =
  calls :: "call list"
  remote :: 'r

text \<open>
  The environment of a \<open>ConfluenceAPI\<close> object:
  \<^item> \<open>transport\<close> is \<open>self.session.request\<close>: it answers a request with a response or raises,
    and changes the state of the service;
  \<^item> \<open>deletePage\<close>: \<open>copyPage\<close> calls \<open>self.deletePage\<close>, and the class body in the source file
    defines no method of that name, so the call is resolved outside the file and its
    behaviour is a parameter;
  \<^item> \<open>items\<close> is the order in which a Python 2 dictionary enumerates its entries in
    \<open>.items()\<close>, which the language leaves to the implementation.
\<close>

record 'r env =
  transport :: "http_method \<Rightarrow> string \<Rightarrow> params \<Rightarrow> 'r \<Rightarrow> (error + response) \<times> 'r"
  deletePage_impl :: "string \<Rightarrow> 'r \<Rightarrow> (error + unit) \<times> 'r"
  items :: "(string \<times> page) list \<Rightarrow> (string \<times> page) list"

text \<open>
  What the class in the source file gives for \<open>self.deletePage\<close> by itself: the lookup falls
  through to \<open>__getattr__\<close>, which raises \<open>AttributeError(name)\<close> for every name but
  \<open>session\<close>.
\<close>

definition deletePage_undefined :: "string \<Rightarrow> 'r \<Rightarrow> (error + unit) \<times> 'r" where
  "deletePage_undefined page_id r = (Inl (AttributeError ''deletePage''), r)"

type_synonym ('a, 'r) result = "(error + 'a) \<times> 'r world"

definition log_call :: "call \<Rightarrow> 'r world \<Rightarrow> 'r world" where
  "log_call c w = w\<lparr>calls := calls w @ [c]\<rparr>"

text \<open>
  \<open>request\<close> (lines 61-93): an exception of the session propagates; a status of 400 or more
  raises \<open>ConfluenceError\<close>; otherwise the decoded body is returned, or \<open>{}\<close> when the body
  is empty. There is no path on which \<open>request\<close> returns \<open>None\<close>.
\<close>

definition request ::
  "'r env \<Rightarrow> http_method \<Rightarrow> string \<Rightarrow> params \<Rightarrow> 'r world \<Rightarrow> (payload, 'r) result" where
  "request env method endpoint ps w =
     (case transport env method endpoint ps (remote w) of
        (Inl e, r) \<Rightarrow> (Inl e, w\<lparr>remote := r\<rparr>)
      | (Inr resp, r) \<Rightarrow>
          if status_code resp \<ge> 400 then (Inl (ConfluenceError (resp_text resp)), w\<lparr>remote := r\<rparr>)
          else if resp_text resp \<noteq> [] then (Inr (resp_json resp), w\<lparr>remote := r\<rparr>)
          else (Inr Empty, w\<lparr>remote := r\<rparr>))"

definition get :: "'r env \<Rightarrow> string \<Rightarrow> params \<Rightarrow> 'r world \<Rightarrow> (payload, 'r) result" where
  "get env endpoint ps w = request env GET endpoint ps w"

definition put :: "'r env \<Rightarrow> string \<Rightarrow> params \<Rightarrow> 'r world \<Rightarrow> (payload, 'r) result" where
  "put env endpoint ps w = request env PUT endpoint ps w"

definition post :: "'r env \<Rightarrow> string \<Rightarrow> params \<Rightarrow> 'r world \<Rightarrow> (payload, 'r) result" where
  "post env endpoint ps w = request env POST endpoint ps w"

definition startswith :: "string \<Rightarrow> string \<Rightarrow> bool" where
  "startswith s p = (strip_prefix p s \<noteq> None)"

definition content_url :: "string \<Rightarrow> string" where
  "content_url page_id =
     (if startswith page_id ''/rest'' then page_id else ''/rest/api/content/'' @ page_id)"

text \<open>
  \<open>getPage\<close> (lines 206-213) wraps the decoded body in a \<open>Page\<close> object. The result is a
  Python value that the caller compares with \<open>None\<close>, so it is an option; constructing a
  \<open>Page\<close> never gives \<open>None\<close>.
\<close>

definition getPage ::
  "'r env \<Rightarrow> string \<Rightarrow> expand \<Rightarrow> 'r world \<Rightarrow> (payload option, 'r) result" where
  "getPage env page_id exp w =
     (case get env (content_url page_id) (ExpandParams (join_expand exp))
             (log_call (GetPage page_id (join_expand exp)) w) of
        (Inl e, w') \<Rightarrow> (Inl e, w')
      | (Inr body, w') \<Rightarrow> (Inr (Some body), w'))"

text \<open>\<open>createPage\<close> (lines 506-517) returns the decoded body of the POST.\<close>

definition createPage ::
  "'r env \<Rightarrow> string option \<Rightarrow> string \<Rightarrow> string \<Rightarrow> string option \<Rightarrow> 'r world
     \<Rightarrow> (payload, 'r) result" where
  "createPage env space title storage parent w =
     post env ''/rest/api/content'' (CreateParams title space storage parent)
       (log_call (CreatePage space title storage parent) w)"

text \<open>
  \<open>updatePage\<close> (lines 250-274), called with a version number and a storage body; \<open>type\<close>
  keeps its default \<open>'page'\<close>.
\<close>

definition updatePage ::
  "'r env \<Rightarrow> string \<Rightarrow> string \<Rightarrow> int \<Rightarrow> string \<Rightarrow> 'r world \<Rightarrow> (payload, 'r) result" where
  "updatePage env page_id title version storage w =
     put env (''/rest/api/content/'' @ page_id) (UpdateParams version ''page'' title storage)
       (log_call (UpdatePage page_id title version storage) w)"

text \<open>\<open>getChildren\<close> (lines 520-527) returns \<open>['results']\<close> of the decoded body.\<close>

definition getChildren ::
  "'r env \<Rightarrow> string \<Rightarrow> string option \<Rightarrow> 'r world \<Rightarrow> (page list, 'r) result" where
  "getChildren env page_id type w =
     (case get env
             (content_url page_id @ (case type of None \<Rightarrow> ''/child'' | Some t \<Rightarrow> ''/child/'' @ t))
             (ExpandParams [])
             (log_call (GetChildren page_id type) w) of
        (Inl e, w') \<Rightarrow> (Inl e, w')
      | (Inr (Listing results _ _), w') \<Rightarrow> (Inr results, w')
      | (Inr _, w') \<Rightarrow> (Inl (KeyError ''results''), w'))"

text \<open>\<open>self.deletePage(page_id)\<close>: the call is recorded, its effect is the parameter.\<close>

definition deletePage :: "'r env \<Rightarrow> string \<Rightarrow> 'r world \<Rightarrow> (unit, 'r) result" where
  "deletePage env page_id w =
     (case deletePage_impl env page_id (remote w) of
        (res, r) \<Rightarrow> (res, (log_call (DeletePage page_id) w)\<lparr>remote := r\<rparr>))"

text \<open>
  \<open>findPages\<close> (lines 312-320), called with integer \<open>limit\<close> and \<open>start\<close>: a non-empty
  \<open>pageSpec\<close> is resolved to the query, the \<open>expand\<close> list is joined.
\<close>

definition query_of :: "string \<Rightarrow> string \<Rightarrow> string" where
  "query_of pageSpec cql = (if pageSpec \<noteq> [] then resolveCQL pageSpec else cql)"

definition findPages ::
  "'r env \<Rightarrow> string \<Rightarrow> expand \<Rightarrow> int \<Rightarrow> int \<Rightarrow> string \<Rightarrow> 'r world \<Rightarrow> (payload, 'r) result" where
  "findPages env pageSpec exp limit start cql w =
     get env ''/rest/api/content/search''
       (SearchParams (query_of pageSpec cql) (join_expand exp) limit start)
       (log_call (FindPages (query_of pageSpec cql) (join_expand exp) limit start) w)"

section \<open>Paginated query iterator: \<open>iterate\<close>\<close>

text \<open>
  The \<open>for\<close> loop over one fetched page (lines 340-345): every item is yielded, then the
  counter is decremented, and the loop is left once the counter is zero or less. The result
  is the list of yielded items and the counter after the loop.
\<close>

fun yield_results :: "page list \<Rightarrow> int \<Rightarrow> page list \<times> int" where
  "yield_results [] maxResults = ([], maxResults)"
| "yield_results (p # ps) maxResults =
     (if maxResults - 1 \<le> 0 then ([p], maxResults - 1)
      else (case yield_results ps (maxResults - 1) of (ys, m) \<Rightarrow> (p # ys, m)))"

text \<open>
  The \<open>while True\<close> loop (lines 335-354) with the page size \<open>limit = 25\<close>. The generator is
  modelled by what it yields when it is consumed to its end: the items yielded so far,
  how it ended (exhausted, or the exception that ended it) and the world after it. The
  loop need not end, so the result is an option and \<open>None\<close> is a generator that never ends.
\<close>

partial_function (option) iterate_loop ::
  "'r env \<Rightarrow> string \<Rightarrow> expand \<Rightarrow> string \<Rightarrow> int \<Rightarrow> int \<Rightarrow> page list \<Rightarrow> 'r world
     \<Rightarrow> (page list \<times> (error + unit) \<times> 'r world) option" where
  "iterate_loop env pageSpec exp cql start maxResults yielded w =
     (case findPages env pageSpec exp 25 start cql w of
        (Inl e, w') \<Rightarrow> Some (yielded, Inl e, w')
      | (Inr (Listing results sz lim), w') \<Rightarrow>
          (case yield_results results maxResults of
             (ys, m) \<Rightarrow>
               if m \<le> 0 then Some (yielded @ ys, Inr (), w')
               else if sz < lim then Some (yielded @ ys, Inr (), w')
               else iterate_loop env pageSpec exp cql (start + 25) m (yielded @ ys) w')
      | (Inr _, w') \<Rightarrow> Some (yielded, Inl (KeyError ''results''), w'))"

declare iterate_loop.simps [code]

text \<open>
  \<open>iterate\<close> (lines 322-333): \<open>start\<close> and \<open>limit\<close> are keyword arguments that may be absent;
  an absent or negative \<open>limit\<close> becomes the counter 10000000000.
\<close>

definition iterate ::
  "'r env \<Rightarrow> string \<Rightarrow> expand \<Rightarrow> string \<Rightarrow> int option \<Rightarrow> int option \<Rightarrow> 'r world
     \<Rightarrow> (page list \<times> (error + unit) \<times> 'r world) option" where
  "iterate env pageSpec exp cql start limit w =
     (let start0 = (case start of None \<Rightarrow> 0 | Some s \<Rightarrow> s);
          maxResults = (case limit of None \<Rightarrow> - 1 | Some l \<Rightarrow> l)
      in iterate_loop env pageSpec exp cql start0
           (if maxResults < 0 then 10000000000 else maxResults) [] w)"

subsection \<open>A remote that serves a fixed collection page by page\<close>

text \<open>
  The search operation of a remote service whose collection is the state \<open>all\<close>: a request
  for \<open>limit\<close> items from offset \<open>start\<close> is answered with that slice of the collection, the
  number of items in it and the requested limit.
\<close>

definition ok :: "payload \<Rightarrow> response" where
  "ok body = \<lparr>status_code = 200, resp_text = ''{...}'', resp_json = body\<rparr>"

definition not_found :: response where
  "not_found = \<lparr>status_code = 404, resp_text = ''not found'', resp_json = Empty\<rparr>"

definition paged_transport ::
  "http_method \<Rightarrow> string \<Rightarrow> params \<Rightarrow> page list \<Rightarrow> (error + response) \<times> page list" where
  "paged_transport method endpoint ps all =
     (case ps of
        SearchParams cql exp limit start \<Rightarrow>
          if method = GET \<and> endpoint = ''/rest/api/content/search'' then
            (Inr (ok (Listing (take (nat limit) (drop (nat start) all))
                        (int (length (take (nat limit) (drop (nat start) all)))) limit)), all)
          else (Inr not_found, all)
      | _ \<Rightarrow> (Inr not_found, all))"

definition paged_env :: "page list env" where
  "paged_env =
     \<lparr>transport = paged_transport, deletePage_impl = deletePage_undefined, items = (\<lambda>d. d)\<rparr>"

definition item :: "string \<Rightarrow> page" where
  "item i = \<lparr>pg_id = i, pg_title = ''T'' @ i, pg_version = 1, pg_storage = []\<rparr>"

text \<open>The search calls of \<open>n\<close> successive rounds from offset \<open>start\<close>.\<close>

definition rounds :: "string \<Rightarrow> string \<Rightarrow> nat \<Rightarrow> nat \<Rightarrow> call list" where
  "rounds cql exp start n = map (\<lambda>k. FindPages cql exp 25 (int (start + 25 * k))) [0..<n]"

text \<open>
  The number of rounds that serve \<open>avail\<close> remaining items to a counter \<open>m\<close>: when the
  counter exceeds the items, every full page and the short page after them; otherwise the
  pages that hold the first \<open>m\<close> items.
\<close>

definition n_rounds :: "nat \<Rightarrow> int \<Rightarrow> nat" where
  "n_rounds avail m = (if int avail < m then Suc (avail div 25) else (nat m + 24) div 25)"

section \<open>Property filter: \<open>getPagesWithProperties\<close>\<close>

text \<open>
  A page property is a scalar or a list (\<open>getPageProperty\<close> belongs to the \<open>Page\<close> class,
  which is not part of the source file, and is a parameter).
\<close>

datatype propval = PNone | PStr string | PList "propval list"

record prop_filter =
  f_name :: string
  f_cmp :: string
  f_value :: propval

datatype filter_item = FilterString string | FilterDict prop_filter

text \<open>
  \<open>PAGE_PROP_FILTER = ^(.*?)([!=])=(.*)\<close>: the lazy \<open>.*?\<close> stops at the first position where
  \<open>!=\<close> or \<open>==\<close> stands; the value is the rest of the line.
\<close>

fun PAGE_PROP_FILTER_from :: "string \<Rightarrow> string \<Rightarrow> (string \<times> string \<times> string) option" where
  "PAGE_PROP_FILTER_from name (c # d # rest) =
     (if (c = CHR ''!'' \<or> c = CHR ''='') \<and> d = CHR ''='' then
        Some (name, [c], takeWhile is_dot rest)
      else if is_dot c then PAGE_PROP_FILTER_from (name @ [c]) (d # rest)
      else None)"
| "PAGE_PROP_FILTER_from name rest = None"

definition PAGE_PROP_FILTER :: "string \<Rightarrow> (string \<times> string \<times> string) option" where
  "PAGE_PROP_FILTER s = PAGE_PROP_FILTER_from [] s"

text \<open>
  The loop that builds \<open>page_prop_filters\<close> (lines 462-469). It also assigns the local
  variable \<open>cmp\<close> of \<open>getPagesWithProperties\<close>, which stays unbound (\<open>None\<close> here) until the
  first string item matches.
\<close>

fun parse_filters ::
  "filter_item list \<Rightarrow> prop_filter list \<Rightarrow> string option \<Rightarrow> prop_filter list \<times> string option"
  where
  "parse_filters [] page_prop_filters cmp = (page_prop_filters, cmp)"
| "parse_filters (FilterString s # rest) page_prop_filters cmp =
     (case PAGE_PROP_FILTER s of
        Some (name, c, v) \<Rightarrow>
          parse_filters rest
            (page_prop_filters @ [\<lparr>f_name = name, f_cmp = c, f_value = PStr v\<rparr>]) (Some c)
      | None \<Rightarrow> parse_filters rest page_prop_filters cmp)"
| "parse_filters (FilterDict f # rest) page_prop_filters cmp =
     parse_filters rest (page_prop_filters @ [f]) cmp"

text \<open>
  The loop of \<open>page_prop_filterer\<close> (lines 476-488). The comparison reads the variable \<open>cmp\<close>
  of the enclosing function, not \<open>f['cmp']\<close>; reading it while it is unbound raises
  \<open>NameError\<close>.
\<close>

fun filterer_loop ::
  "(page \<Rightarrow> string \<Rightarrow> propval) \<Rightarrow> string option \<Rightarrow> page \<Rightarrow> prop_filter list \<Rightarrow> bool
     \<Rightarrow> error + bool" where
  "filterer_loop getPageProperty cmp pg [] result = Inr result"
| "filterer_loop getPageProperty cmp pg (f # fs) result =
     (case cmp of
        None \<Rightarrow> Inl (NameError ''cmp'')
      | Some c \<Rightarrow>
          filterer_loop getPageProperty cmp pg fs
            (if c = ''='' then
               (case getPageProperty pg (f_name f) of
                  PList xs \<Rightarrow> result \<and> f_value f \<in> set xs
                | v \<Rightarrow> result \<and> v = f_value f)
             else
               (case getPageProperty pg (f_name f) of
                  PList xs \<Rightarrow> result \<and> f_value f \<notin> set xs
                | v \<Rightarrow> result \<and> v \<noteq> f_value f)))"

definition page_prop_filterer ::
  "(page \<Rightarrow> string \<Rightarrow> propval) \<Rightarrow> prop_filter list \<Rightarrow> string option \<Rightarrow> page \<Rightarrow> error + bool"
  where
  "page_prop_filterer getPageProperty page_prop_filters cmp pg =
     (if length page_prop_filters = 0 then Inr True
      else filterer_loop getPageProperty cmp pg page_prop_filters True)"

text \<open>
  The predicate that \<open>getPagesWithProperties\<close> applies to every page of the stream, for a
  given \<open>page_prop_filter\<close> argument (a list of items, or \<open>None\<close>).
\<close>

definition page_passes ::
  "(page \<Rightarrow> string \<Rightarrow> propval) \<Rightarrow> filter_item list option \<Rightarrow> page \<Rightarrow> error + bool" where
  "page_passes getPageProperty page_prop_filter pg =
     (case parse_filters (case page_prop_filter of None \<Rightarrow> [] | Some fs \<Rightarrow> fs) [] None of
        (page_prop_filters, cmp) \<Rightarrow> page_prop_filterer getPageProperty page_prop_filters cmp pg)"

text \<open>\<open>filter(page_prop_filterer, ...)\<close> over the pages; the first exception ends it.\<close>

fun filter_pages :: "(page \<Rightarrow> error + bool) \<Rightarrow> page list \<Rightarrow> error + page list" where
  "filter_pages pred [] = Inr []"
| "filter_pages pred (p # ps) =
     (case pred p of
        Inl e \<Rightarrow> Inl e
      | Inr b \<Rightarrow>
          (case filter_pages pred ps of
             Inl e \<Rightarrow> Inl e
           | Inr qs \<Rightarrow> Inr (if b then p # qs else qs)))"

subsection \<open>The filter as the specification words it\<close>

text \<open>
  Each spec is judged by its own comparison operator: an equality spec holds iff the
  expected value is a member of a stored collection, or equals a stored scalar; a
  not-equals spec holds iff it is not a member, respectively not equal. A page passes iff
  every spec holds.
\<close>

definition spec_holds :: "(page \<Rightarrow> string \<Rightarrow> propval) \<Rightarrow> page \<Rightarrow> prop_filter \<Rightarrow> bool" where
  "spec_holds getPageProperty pg f =
     (if f_cmp f = ''='' then
        (case getPageProperty pg (f_name f) of
           PList xs \<Rightarrow> f_value f \<in> set xs
         | v \<Rightarrow> v = f_value f)
      else
        (case getPageProperty pg (f_name f) of
           PList xs \<Rightarrow> f_value f \<notin> set xs
         | v \<Rightarrow> v \<noteq> f_value f))"

definition spec_passes ::
  "(page \<Rightarrow> string \<Rightarrow> propval) \<Rightarrow> prop_filter list \<Rightarrow> page \<Rightarrow> bool" where
  "spec_passes getPageProperty specs pg = list_all (spec_holds getPageProperty pg) specs"

text \<open>A page whose property \<open>a\<close> is \<open>1\<close> and whose other properties are \<open>3\<close>.\<close>

definition props_a1 :: "page \<Rightarrow> string \<Rightarrow> propval" where
  "props_a1 pg name = (if name = ''a'' then PStr ''1'' else PStr ''3'')"

section \<open>Page tree synchronizer: \<open>copyPage\<close>\<close>

text \<open>
  \<open>dict(pairs)\<close>: a later pair with a key already present replaces the value of that key.
  The dictionary is kept as an association list with distinct keys; \<open>len(d.keys())\<close> is its
  length, \<open>k in d\<close> and \<open>d[k]\<close> are \<open>map_of\<close>.
\<close>

definition dict_of :: "(string \<times> 'v) list \<Rightarrow> (string \<times> 'v) list" where
  "dict_of pairs = foldl (\<lambda>d (k, v). AList.update k v d) [] pairs"

text \<open>
  \<open>sorted([(p['title'], p) for p in children])\<close>. Pairs with equal titles are left in the
  order of the listing; Python compares the dictionaries then, which only decides which
  of two pages with one title the dictionary keeps.
\<close>

definition titled :: "page list \<Rightarrow> (string \<times> page) list" where
  "titled children = sort_key fst (map (\<lambda>p. (pg_title p, p)) children)"

text \<open>
  Subscripting the value of a page variable: \<open>None\<close> has no items, and a decoded body that
  is not a content item lacks the key.
\<close>

fun item_field :: "string \<Rightarrow> (page \<Rightarrow> 'a) \<Rightarrow> payload option \<Rightarrow> error + 'a" where
  "item_field key f (Some (Item p)) = Inr (f p)"
| "item_field key f (Some _) = Inl (KeyError key)"
| "item_field key f None = Inl (TypeError ''NoneType'')"

text \<open>Sequencing: an exception ends the call with the world as it is at that point.\<close>

definition and_then ::
  "('a, 'r) result \<Rightarrow> ('a \<Rightarrow> 'r world \<Rightarrow> ('b, 'r) result option) \<Rightarrow> ('b, 'r) result option" where
  "and_then res f = (case res of (Inl e, w) \<Rightarrow> Some (Inl e, w) | (Inr x, w) \<Rightarrow> f x w)"

text \<open>The CREATE branch (lines 159-165): the result of \<open>createPage\<close> becomes the target page.\<close>

definition create_target ::
  "'r env \<Rightarrow> payload option \<Rightarrow> string \<Rightarrow> string option \<Rightarrow> string option \<Rightarrow> 'r world
     \<Rightarrow> (payload option, 'r) result" where
  "create_target env source_page target parent space w =
     (case item_field ''body'' pg_storage source_page of
        Inl e \<Rightarrow> (Inl e, w)
      | Inr storage \<Rightarrow>
          (case createPage env space target storage parent w of
             (Inl e, w') \<Rightarrow> (Inl e, w')
           | (Inr created, w') \<Rightarrow> (Inr (Some created), w')))"

text \<open>
  The UPDATE branch (lines 167-172): the fetched target keeps its title and is sent with the
  version number that was read; the target page variable is unchanged.
\<close>

definition update_target ::
  "'r env \<Rightarrow> payload option \<Rightarrow> payload option \<Rightarrow> 'r world \<Rightarrow> (payload option, 'r) result" where
  "update_target env source_page target_page w =
     (case item_field ''id'' pg_id target_page of
        Inl e \<Rightarrow> (Inl e, w)
      | Inr target_id \<Rightarrow>
     (case item_field ''version'' pg_version target_page of
        Inl e \<Rightarrow> (Inl e, w)
      | Inr version \<Rightarrow>
     (case item_field ''title'' pg_title target_page of
        Inl e \<Rightarrow> (Inl e, w)
      | Inr title \<Rightarrow>
     (case item_field ''body'' pg_storage source_page of
        Inl e \<Rightarrow> (Inl e, w)
      | Inr storage \<Rightarrow>
     (case updatePage env target_id title version storage w of
        (Inl e, w') \<Rightarrow> (Inl e, w')
      | (Inr _, w') \<Rightarrow> (Inr target_page, w'))))))"

text \<open>
  Lines 155-172: fetch the source, fetch the target, then create or update. The default
  \<open>target=None\<close> makes \<open>getPage\<close> fail on \<open>page_id.startswith\<close>. The result is the pair of the
  source page and the target page.
\<close>

definition copy_top ::
  "'r env \<Rightarrow> string \<Rightarrow> string option \<Rightarrow> string option \<Rightarrow> string option \<Rightarrow> 'r world
     \<Rightarrow> (payload option \<times> payload option, 'r) result" where
  "copy_top env source target parent space w =
     (case getPage env source (ExpandStr ''body.storage,space'') w of
        (Inl e, w1) \<Rightarrow> (Inl e, w1)
      | (Inr source_page, w1) \<Rightarrow>
     (case target of
        None \<Rightarrow> (Inl (AttributeError ''startswith''), w1)
      | Some target_ref \<Rightarrow>
     (case getPage env target_ref (ExpandStr ''version,space'') w1 of
        (Inl e, w2) \<Rightarrow> (Inl e, w2)
      | (Inr target_page, w2) \<Rightarrow>
     (case (if target_page = None then create_target env source_page target_ref parent space w2
            else update_target env source_page target_page w2) of
        (Inl e, w3) \<Rightarrow> (Inl e, w3)
      | (Inr target_page', w3) \<Rightarrow> (Inr (source_page, target_page'), w3)))))"

text \<open>
  Lines 175-176: the children of the source and of the target, of type \<open>page\<close>, each as a
  sorted list of (title, page) pairs.
\<close>

definition fetch_subpages ::
  "'r env \<Rightarrow> payload option \<Rightarrow> payload option \<Rightarrow> 'r world
     \<Rightarrow> ((string \<times> page) list \<times> (string \<times> page) list, 'r) result" where
  "fetch_subpages env source_page target_page w =
     (case item_field ''id'' pg_id source_page of
        Inl e \<Rightarrow> (Inl e, w)
      | Inr source_id \<Rightarrow>
     (case getChildren env source_id (Some ''page'') w of
        (Inl e, w1) \<Rightarrow> (Inl e, w1)
      | (Inr source_children, w1) \<Rightarrow>
     (case item_field ''id'' pg_id target_page of
        Inl e \<Rightarrow> (Inl e, w1)
      | Inr target_id \<Rightarrow>
     (case getChildren env target_id (Some ''page'') w1 of
        (Inl e, w2) \<Rightarrow> (Inl e, w2)
      | (Inr target_children, w2) \<Rightarrow>
          (Inr (titled source_children, titled target_children), w2)))))"

text \<open>A \<open>for\<close> loop whose body may raise or, with recursion bounded, may not finish.\<close>

fun for_each ::
  "('a \<Rightarrow> 'r world \<Rightarrow> ('b, 'r) result option) \<Rightarrow> 'a list \<Rightarrow> 'r world \<Rightarrow> (unit, 'r) result option"
  where
  "for_each body [] w = Some (Inr (), w)"
| "for_each body (x # xs) w =
     (case body x w of
        None \<Rightarrow> None
      | Some (Inl e, w') \<Rightarrow> Some (Inl e, w')
      | Some (Inr _, w') \<Rightarrow> for_each body xs w')"

text \<open>Lines 195-198: delete the target children whose title the source does not have.\<close>

fun delete_orphans ::
  "'r env \<Rightarrow> (string \<times> page) list \<Rightarrow> (string \<times> page) list \<Rightarrow> 'r world \<Rightarrow> (unit, 'r) result" where
  "delete_orphans env source_subpage [] w = (Inr (), w)"
| "delete_orphans env source_subpage ((title, pg) # rest) w =
     (if map_of source_subpage title = None then
        (case deletePage env (pg_id pg) w of
           (Inl e, w') \<Rightarrow> (Inl e, w')
         | (Inr _, w') \<Rightarrow> delete_orphans env source_subpage rest w')
      else delete_orphans env source_subpage rest w)"

text \<open>
  \<open>copyPage\<close> (lines 138-198). The recursion descends the page tree of the remote service
  and has no bound of its own, so the model carries the depth still allowed: \<open>None\<close> means
  that the call did not finish within that depth. A finished call gives the value that the
  Python function returns, together with the world; the function body has no \<open>return\<close>
  statement, so that value is \<open>None\<close>. The recursive call passes no \<open>delete\<close> argument, which
  is then its default \<open>False\<close>.
\<close>

fun copyPage ::
  "'r env \<Rightarrow> nat \<Rightarrow> string \<Rightarrow> string option \<Rightarrow> bool \<Rightarrow> string option \<Rightarrow> string option \<Rightarrow> bool
     \<Rightarrow> 'r world \<Rightarrow> (payload option, 'r) result option" where
  "copyPage env 0 source target recursive parent space delete w = None"
| "copyPage env (Suc depth) source target recursive parent space delete w =
     and_then (copy_top env source target parent space w) (\<lambda>(source_page, target_page) w.
       if recursive then
         and_then (fetch_subpages env source_page target_page w)
           (\<lambda>(source_subpages, target_subpages) w.
             let source_subpage = dict_of source_subpages;
                 target_subpage = dict_of target_subpages
             in
               if length (map fst source_subpage) \<noteq> length source_subpages then
                 Some (Inl AssertionError, w)
               else if length (map fst target_subpage) \<noteq> length target_subpages then
                 Some (Inl AssertionError, w)
               else
                 (case for_each
                         (\<lambda>(title, pg) w.
                            (case item_field ''id'' pg_id target_page of
                               Inl e \<Rightarrow> Some (Inl e, w)
                             | Inr target_id \<Rightarrow>
                                 copyPage env depth (pg_id pg)
                                   (Some (case map_of target_subpage title of
                                            Some t \<Rightarrow> pg_id t
                                          | None \<Rightarrow> title))
                                   recursive (Some target_id) space False w))
                         (items env source_subpage) w of
                    None \<Rightarrow> None
                  | Some (Inl e, w') \<Rightarrow> Some (Inl e, w')
                  | Some (Inr _, w') \<Rightarrow>
                      if delete then
                        (case delete_orphans env source_subpage (items env target_subpage) w' of
                           (Inl e, w'') \<Rightarrow> Some (Inl e, w'')
                         | (Inr _, w'') \<Rightarrow> Some (Inr None, w''))
                      else Some (Inr None, w')))
       else Some (Inr None, w))"

subsection \<open>A remote page store\<close>

text \<open>
  A small content service for concrete runs: the state is the list of stored pages, each
  with the identifier of its parent. A content item is fetched by identifier, children are
  listed by parent, a POST stores a new page, a PUT replaces title, version and body.
  Everything else is answered with status 404.
\<close>

type_synonym wiki = "(page \<times> string option) list"

definition strip_suffix :: "string \<Rightarrow> string \<Rightarrow> string option" where
  "strip_suffix suffix s = map_option rev (strip_prefix (rev suffix) (rev s))"

definition wiki_find :: "wiki \<Rightarrow> string \<Rightarrow> page option" where
  "wiki_find wk page_id = List.find (\<lambda>p. pg_id p = page_id) (map fst wk)"

definition wiki_children :: "wiki \<Rightarrow> string \<Rightarrow> page list" where
  "wiki_children wk page_id = map fst (filter (\<lambda>(p, parent). parent = Some page_id) wk)"

definition wiki_get :: "string \<Rightarrow> wiki \<Rightarrow> response" where
  "wiki_get path wk =
     (case strip_suffix ''/child/page'' path of
        Some page_id \<Rightarrow>
          ok (Listing (wiki_children wk page_id) (int (length (wiki_children wk page_id))) 25)
      | None \<Rightarrow>
          (case wiki_find wk path of
             Some p \<Rightarrow> ok (Item p)
           | None \<Rightarrow> not_found))"

definition wiki_transport ::
  "http_method \<Rightarrow> string \<Rightarrow> params \<Rightarrow> wiki \<Rightarrow> (error + response) \<times> wiki" where
  "wiki_transport method endpoint ps wk =
     (case (method, strip_prefix ''/rest/api/content'' endpoint, ps) of
        (GET, Some (c # path), ExpandParams exp) \<Rightarrow> (Inr (wiki_get path wk), wk)
      | (POST, Some [], CreateParams title space storage parent) \<Rightarrow>
          (let p = \<lparr>pg_id = ''new-'' @ title, pg_title = title, pg_version = 1,
                    pg_storage = storage\<rparr>
           in (Inr (ok (Item p)), wk @ [(p, parent)]))
      | (PUT, Some (c # page_id), UpdateParams version type title storage) \<Rightarrow>
          (case wiki_find wk page_id of
             None \<Rightarrow> (Inr not_found, wk)
           | Some p \<Rightarrow>
               (let p' = p\<lparr>pg_title := title, pg_version := version, pg_storage := storage\<rparr>
                in (Inr (ok (Item p')),
                    map (\<lambda>(q, parent). if pg_id q = page_id then (p', parent) else (q, parent)) wk)))
      | _ \<Rightarrow> (Inr not_found, wk))"

text \<open>
  Modelled from the spec: the operation \<open>deleteItem(id)\<close> of the remote service, behind the
  method \<open>deletePage\<close> that the source file does not define. It removes the page with that
  identifier, and only that page.
\<close>

definition wiki_delete :: "string \<Rightarrow> wiki \<Rightarrow> (error + unit) \<times> wiki" where
  "wiki_delete page_id wk = (Inr (), filter (\<lambda>(p, parent). pg_id p \<noteq> page_id) wk)"

definition wiki_env :: "wiki env" where
  "wiki_env = \<lparr>transport = wiki_transport, deletePage_impl = wiki_delete, items = (\<lambda>d. d)\<rparr>"

definition start :: "'r \<Rightarrow> 'r world" where
  "start r = \<lparr>calls = [], remote = r\<rparr>"

definition stored :: "string \<Rightarrow> string \<Rightarrow> string \<Rightarrow> page" where
  "stored i title body = \<lparr>pg_id = i, pg_title = title, pg_version = 1, pg_storage = body\<rparr>"

subsection \<open>Observing the calls of a run\<close>

fun is_create :: "call \<Rightarrow> bool" where
  "is_create (CreatePage space title storage parent) = True"
| "is_create c = False"

fun is_update :: "call \<Rightarrow> bool" where
  "is_update (UpdatePage page_id title version storage) = True"
| "is_update c = False"

fun is_delete :: "call \<Rightarrow> bool" where
  "is_delete (DeletePage page_id) = True"
| "is_delete c = False"

text \<open>\<open>adds P w w'\<close>: from \<open>w\<close> to \<open>w'\<close> calls were only appended, and each of them satisfies \<open>P\<close>.\<close>

definition adds :: "(call \<Rightarrow> bool) \<Rightarrow> 'r world \<Rightarrow> 'r world \<Rightarrow> bool" where
  "adds P w w' =
     (take (length (calls w)) (calls w') = calls w
      \<and> list_all P (drop (length (calls w)) (calls w')))"

text \<open>A call that neither creates nor deletes a page.\<close>

abbreviation (input) quiet :: "call \<Rightarrow> bool" where
  "quiet c \<equiv> \<not> is_create c \<and> \<not> is_delete c"

text \<open>The body of the loop over the children of the source (lines 186-193).\<close>

abbreviation (input) child_call ::
  "'r env \<Rightarrow> nat \<Rightarrow> payload option \<Rightarrow> (string \<times> page) list \<Rightarrow> bool \<Rightarrow> string option
     \<Rightarrow> string \<times> page \<Rightarrow> 'r world \<Rightarrow> (payload option, 'r) result option" where
  "child_call env depth target_page target_subpage recursive space \<equiv>
     (\<lambda>(title, pg) w.
        (case item_field ''id'' pg_id target_page of
           Inl e \<Rightarrow> Some (Inl e, w)
         | Inr target_id \<Rightarrow>
             copyPage env depth (pg_id pg)
               (Some (case map_of target_subpage title of
                        Some t \<Rightarrow> pg_id t
                      | None \<Rightarrow> title))
               recursive (Some target_id) space False w))"

subsection \<open>Page trees for concrete runs\<close>

text \<open>The source tree \<open>A{B, C{D}}\<close>; no page \<open>NewA\<close> exists.\<close>

definition tree_ABCD :: wiki where
  "tree_ABCD =
     [(stored ''A'' ''A'' ''a'', None), (stored ''B'' ''B'' ''b'', Some ''A''),
      (stored ''C'' ''C'' ''c'', Some ''A''), (stored ''D'' ''D'' ''d'', Some ''C'')]"

text \<open>A source page \<open>A\<close> with two children of one title, and an existing target \<open>T\<close>.\<close>

definition dup_wiki :: wiki where
  "dup_wiki =
     [(stored ''A'' ''A'' ''a'', None), (stored ''B1'' ''B'' ''b'', Some ''A''),
      (stored ''B2'' ''B'' ''b'', Some ''A''), (stored ''T'' ''A'' ''a'', None)]"

text \<open>
  The source tree \<open>A{B}\<close> and the target tree \<open>T{U, X}\<close> with \<open>U{Y}\<close>, where \<open>T\<close> has the title of
  \<open>A\<close> and \<open>U\<close> the title of \<open>B\<close>: \<open>X\<close> is an orphan on the first level, \<open>Y\<close> one below it.
\<close>

definition prune_wiki :: wiki where
  "prune_wiki =
     [(stored ''A'' ''A'' ''a'', None), (stored ''B'' ''B'' ''b'', Some ''A''),
      (stored ''T'' ''A'' ''a'', None), (stored ''U'' ''B'' ''b'', Some ''T''),
      (stored ''X'' ''X'' ''x'', Some ''T''), (stored ''Y'' ''Y'' ''y'', Some ''U'')]"

section \<open>Properties of the reference resolver\<close>

lemmas resolver_eval =
  resolveCQL_def SPACE_PAGE_REF_def PAGE_REF_def PAGE_ID_def PAGE_URI_at_def
  dot_star_dollar_def digits_dollar_def at_dollar_def is_upper_def is_digit_def is_dot_def
  newline_def

lemma digit_not_upper: "is_digit c \<Longrightarrow> \<not> is_upper c"
proof
  assume d: "is_digit c" and u: "is_upper c"
  from u d have "CHR ''A'' \<le> CHR ''9''"
    unfolding is_digit_def is_upper_def by (meson order_trans)
  then show False by simp
qed

lemma digit_not_colon: "is_digit c \<Longrightarrow> c \<noteq> CHR '':''"
  unfolding is_digit_def by auto

lemma digits_dollar_all:
  assumes "ref \<noteq> []" and "\<forall>c\<in>set ref. is_digit c"
  shows "digits_dollar ref = Some ref"
  using assms
  by (simp add: digits_dollar_def at_dollar_def takeWhile_eq_all_conv [THEN iffD2]
      dropWhile_eq_Nil_conv [THEN iffD2])

lemma digits_no_colon_rules:
  assumes "ref \<noteq> []" and "\<forall>c\<in>set ref. is_digit c"
  shows "SPACE_PAGE_REF ref = None" and "PAGE_REF ref = None"
proof -
  from assms obtain c cs where ref: "ref = c # cs" and c: "is_digit c"
    by (cases ref) auto
  from c have nu: "\<not> is_upper c" and nc: "c \<noteq> CHR '':''"
    by (rule digit_not_upper, rule digit_not_colon)
  from ref nu nc show "SPACE_PAGE_REF ref = None"
    by (simp add: SPACE_PAGE_REF_def)
  from ref nc show "PAGE_REF ref = None"
    by (simp add: PAGE_REF_def)
qed

text \<open>
  Whatever the second pattern matches, the first pattern matches with an empty space key,
  so the second rule of \<open>resolveCQL\<close> is never the first to match.
\<close>

lemma PAGE_REF_shadowed:
  "PAGE_REF ref = Some title \<Longrightarrow> SPACE_PAGE_REF ref = Some ([], title)"
proof -
  assume m: "PAGE_REF ref = Some title"
  then obtain rest where ref: "ref = CHR '':'' # rest" and t: "dot_star_dollar rest = Some title"
    by (auto simp: PAGE_REF_def split: list.splits if_splits)
  have "\<not> is_upper CHR '':''" by (simp add: is_upper_def)
  with ref t show ?thesis by (simp add: SPACE_PAGE_REF_def)
qed

text \<open>
  Claim C4. A reference \<open>:Title text\<close> with a leading colon and no space key is meant to
  resolve to a title-only query by the second rule. In the source the first pattern is
  \<open>^([A-Z]*):(.*)$\<close>, whose space key may be empty, so the first rule already matches
  \<open>:Title text\<close> and the second rule is never reached: the result is a space-and-title query
  with an empty space key.
\<close>

theorem resolveCQL_leading_colon:
  \<open>resolveCQL '':Title text'' = ''space =  AND title  = "Title text"''\<close>
  by (simp add: resolver_eval)

text \<open>
  What the source does with a non-empty reference of decimal digits: the result is the
  format literal \<open>"ID  = {}"\<close> filled with the same digits.
\<close>

lemma resolveCQL_digits_general:
  assumes "ref \<noteq> []" and "\<forall>c\<in>set ref. is_digit c"
  shows "resolveCQL ref = ''ID  = '' @ ref"
  using digits_no_colon_rules [OF assms] digits_dollar_all [OF assms]
  by (simp add: resolveCQL_def PAGE_ID_def)

text \<open>
  Claim C8. A reference of decimal digits is meant to resolve to exactly \<open>ID = <digits>\<close>,
  as the docstring of \<open>resolveCQL\<close> has it for \<open>12345\<close>. The format literal of the source has
  two spaces before the equals sign, so for \<open>12345\<close> the source returns \<open>ID  = 12345\<close>, which is
  not the documented string.
\<close>

theorem resolveCQL_digits_two_spaces:
  "resolveCQL ''12345'' = ''ID  = 12345'' \<and> resolveCQL ''12345'' \<noteq> ''ID = 12345''"
  by (simp add: resolver_eval)

subsection \<open>References of no known shape\<close>

text \<open>
  Each pattern of the source that matches a reference gives the reference one of the known
  shapes, as long as the reference does not end with a newline.
\<close>

lemma SPACE_PAGE_REF_known:
  assumes "SPACE_PAGE_REF ref = Some kt"
  shows "spec_space_title ref \<or> spec_title ref"
proof -
  from assms obtain rest where d: "dropWhile is_upper ref = CHR '':'' # rest"
    by (auto simp: SPACE_PAGE_REF_def split: list.splits if_splits)
  show ?thesis
  proof (cases "takeWhile is_upper ref = []")
    case True
    have "ref = takeWhile is_upper ref @ dropWhile is_upper ref" by simp
    with True d have "ref = CHR '':'' # rest" by simp
    then show ?thesis by (simp add: spec_title_def)
  next
    case False
    with d show ?thesis by (simp add: spec_space_title_def)
  qed
qed

lemma PAGE_REF_known: "PAGE_REF ref = Some t \<Longrightarrow> spec_title ref"
  by (auto simp: PAGE_REF_def spec_title_def split: list.splits if_splits)

lemma digits_dollar_shape:
  assumes "digits_dollar s = Some ds"
  shows "ds \<noteq> [] \<and> (\<forall>c\<in>set ds. is_digit c) \<and> (s = ds \<or> s = ds @ [newline])"
proof -
  from assms have ds: "ds = takeWhile is_digit s" and ne: "ds \<noteq> []"
    and ad: "at_dollar (dropWhile is_digit s)"
    by (auto simp: digits_dollar_def split: if_splits)
  have split: "s = ds @ dropWhile is_digit s" by (simp add: ds)
  from ad have "dropWhile is_digit s = [] \<or> dropWhile is_digit s = [newline]"
    unfolding at_dollar_def .
  then have "s = ds \<or> s = ds @ [newline]"
  proof
    assume e: "dropWhile is_digit s = []"
    from split show ?thesis unfolding e by simp
  next
    assume e: "dropWhile is_digit s = [newline]"
    from split show ?thesis unfolding e by simp
  qed
  moreover have "\<forall>c\<in>set ds. is_digit c" unfolding ds by (auto dest: set_takeWhileD)
  ultimately show ?thesis using ne by simp
qed

lemma PAGE_ID_known:
  assumes "PAGE_ID ref = Some ds" and "\<not> ends_with_newline ref"
  shows "spec_digits ref"
proof -
  from assms(1) have sh: "ds \<noteq> []" "\<forall>c\<in>set ds. is_digit c" "ref = ds \<or> ref = ds @ [newline]"
    using digits_dollar_shape [of ref ds] by (simp_all add: PAGE_ID_def)
  from sh(3) assms(2) have "ref = ds" by (auto simp: ends_with_newline_def)
  with sh(1,2) show ?thesis by (simp add: spec_digits_def list_all_iff)
qed

lemma strip_prefix_Some: "strip_prefix p s = Some r \<Longrightarrow> s = p @ r"
  by (induction p s rule: strip_prefix.induct) (auto split: if_splits)

lemma strip_prefix_append: "strip_prefix p (p @ r) = Some r"
  by (induction p) auto

lemma PAGE_URI_suffix:
  "PAGE_URI s = Some ds \<Longrightarrow> \<exists>pre suf. s = pre @ suf \<and> PAGE_URI_at suf = Some ds"
proof (induction s)
  case Nil
  then show ?case by simp
next
  case (Cons c cs)
  show ?case
  proof (cases "PAGE_URI_at (c # cs)")
    case (Some d)
    with Cons.prems have "PAGE_URI_at (c # cs) = Some ds" by simp
    then show ?thesis by (metis append_Nil)
  next
    case None
    with Cons.prems have "PAGE_URI cs = Some ds" by simp
    from Cons.IH [OF this] obtain pre suf where "cs = pre @ suf" "PAGE_URI_at suf = Some ds"
      by blast
    then have "c # cs = (c # pre) @ suf \<and> PAGE_URI_at suf = Some ds" by simp
    then show ?thesis by blast
  qed
qed

lemma PAGE_URI_known:
  assumes "PAGE_URI ref = Some ds" and "\<not> ends_with_newline ref"
  shows "spec_content_uri ref"
proof -
  from PAGE_URI_suffix [OF assms(1)] obtain pre suf
    where ref: "ref = pre @ suf" and at: "PAGE_URI_at suf = Some ds" by blast
  from at obtain rest where sp: "strip_prefix ''api/content/'' suf = Some rest"
    and dd: "digits_dollar rest = Some ds"
    by (auto simp: PAGE_URI_at_def split: option.splits)
  from strip_prefix_Some [OF sp] have suf: "suf = ''api/content/'' @ rest" .
  from digits_dollar_shape [OF dd]
  have ne: "ds \<noteq> []" and dig: "\<forall>c\<in>set ds. is_digit c"
    and rest: "rest = ds \<or> rest = ds @ [newline]" by simp_all
  have "rest = ds"
  proof (rule ccontr)
    assume "rest \<noteq> ds"
    with rest have "rest = ds @ [newline]" by simp
    with ref suf have "ends_with_newline ref" by (simp add: ends_with_newline_def)
    with assms(2) show False by simp
  qed
  with ref suf have r: "rev ref = rev ds @ rev ''api/content/'' @ rev pre" by simp
  have nd: "\<not> is_digit CHR ''/''" by (simp add: is_digit_def)
  have tw: "takeWhile is_digit (rev ref) = rev ds"
    unfolding r using dig nd by (subst takeWhile_append2) auto
  have dw: "dropWhile is_digit (rev ref) = rev ''api/content/'' @ rev pre"
    unfolding r using dig nd by (subst dropWhile_append2) auto
  show ?thesis
    unfolding spec_content_uri_def tw dw using ne by (simp only: strip_prefix_append) simp
qed

text \<open>
  A reference of no known shape that does not end with a newline is returned unchanged, and
  resolving the result again changes nothing.
\<close>

lemma resolveCQL_passthrough_without_newline:
  assumes "\<not> spec_known ref" and "\<not> ends_with_newline ref"
  shows "resolveCQL ref = ref \<and> resolveCQL (resolveCQL ref) = resolveCQL ref"
proof -
  from assms(1) have n: "\<not> spec_space_title ref" "\<not> spec_title ref" "\<not> spec_digits ref"
    "\<not> spec_content_uri ref" by (simp_all add: spec_known_def)
  have 1: "SPACE_PAGE_REF ref = None" using n(1,2) SPACE_PAGE_REF_known [of ref]
    by (cases "SPACE_PAGE_REF ref") auto
  have 2: "PAGE_REF ref = None" using n(2) PAGE_REF_known [of ref]
    by (cases "PAGE_REF ref") auto
  have 3: "PAGE_ID ref = None" using n(3) assms(2) PAGE_ID_known [of ref]
    by (cases "PAGE_ID ref") auto
  have 4: "PAGE_URI ref = None" using n(4) assms(2) PAGE_URI_known [of ref]
    by (cases "PAGE_URI ref") auto
  from 1 2 3 4 show ?thesis by (simp add: resolveCQL_def)
qed

lemmas spec_eval = spec_known_def spec_space_title_def spec_title_def spec_digits_def
  spec_content_uri_def

text \<open>
  Claim C9. A reference that matches none of the four known patterns is meant to be returned
  unchanged. In the patterns of the source \<open>$\<close> also matches before one final newline, so
  the reference \<open>12345\<close> followed by a newline, which is not purely decimal digits and has
  none of the known shapes, is matched by \<open>PAGE_ID\<close> and rewritten to an \<open>ID\<close> query.
\<close>

theorem resolveCQL_trailing_newline:
  "spec_known (''12345'' @ [newline]) = False
   \<and> resolveCQL (''12345'' @ [newline]) = ''ID  = 12345''
   \<and> resolveCQL (''12345'' @ [newline]) \<noteq> ''12345'' @ [newline]"
  by (simp add: resolver_eval spec_eval)

section \<open>Properties of the paginated iterator\<close>

lemma yield_results_take:
  "1 \<le> m \<Longrightarrow> yield_results ps m = (take (nat m) ps, m - int (min (nat m) (length ps)))"
proof (induction ps arbitrary: m)
  case Nil
  then show ?case by simp
next
  case (Cons p ps)
  show ?case
  proof (cases "m - 1 \<le> 0")
    case True
    with Cons.prems have "m = 1" by simp
    then show ?thesis by simp
  next
    case False
    then have m: "1 \<le> m - 1" by simp
    have n: "nat m = Suc (nat (m - 1))" using m by simp
    show ?thesis using False Cons.IH [OF m] by (simp add: n)
  qed
qed

lemma findPages_paged:
  "findPages paged_env pageSpec exp lim (int s) cql w =
     (Inr (Listing (take (nat lim) (drop s (remote w)))
             (int (length (take (nat lim) (drop s (remote w))))) lim),
      w\<lparr>calls := calls w @ [FindPages (query_of pageSpec cql) (join_expand exp) lim (int s)]\<rparr>)"
  by (simp add: findPages_def get_def request_def paged_env_def paged_transport_def
      log_call_def ok_def)

lemma rounds_Suc:
  "rounds q e s (Suc n) = FindPages q e 25 (int s) # rounds q e (s + 25) n"
proof -
  have "[0..<Suc n] = 0 # map Suc [0..<n]"
    by (simp add: upt_conv_Cons map_Suc_upt del: upt_Suc)
  then show ?thesis
    by (simp add: rounds_def comp_def add.assoc del: upt_Suc)
qed

lemma iterate_loop_paged:
  fixes w :: "page list world"
  assumes "1 \<le> m"
  shows "iterate_loop paged_env pageSpec exp cql (int s) m acc w =
           Some (acc @ take (nat m) (drop s (remote w)), Inr (),
                 w\<lparr>calls := calls w @ rounds (query_of pageSpec cql) (join_expand exp) s
                                        (n_rounds (length (remote w) - s) m)\<rparr>)"
  using assms
proof (induction "length (remote w) - s" arbitrary: s m acc w rule: less_induct)
  case less
  let ?all = "remote w"
  let ?page = "take 25 (drop s ?all)"
  let ?w1 = "w\<lparr>calls := calls w @ [FindPages (query_of pageSpec cql) (join_expand exp) 25 (int s)]\<rparr>"
  have len: "length ?page = min 25 (length ?all - s)" by simp
  have yr: "yield_results ?page m = (take (nat m) ?page, m - int (min (nat m) (length ?page)))"
    using less.prems by (rule yield_results_take)
  have unfold: "iterate_loop paged_env pageSpec exp cql (int s) m acc w =
      (if m - int (min (nat m) (length ?page)) \<le> 0 then Some (acc @ take (nat m) ?page, Inr (), ?w1)
       else if int (length ?page) < 25 then Some (acc @ take (nat m) ?page, Inr (), ?w1)
       else iterate_loop paged_env pageSpec exp cql (int s + 25)
              (m - int (min (nat m) (length ?page))) (acc @ take (nat m) ?page) ?w1)"
    by (subst iterate_loop.simps) (simp add: findPages_paged yr del: length_take)
  show ?case
  proof (cases "m \<le> int (length ?page)")
    case True
    then have "m - int (min (nat m) (length ?page)) \<le> 0" by simp
    moreover have "take (nat m) ?page = take (nat m) (drop s ?all)"
    proof -
      from True have "nat m \<le> 25" by (simp split: if_splits)
      then show ?thesis by (simp add: min_absorb1)
    qed
    moreover from True less.prems have "n_rounds (length ?all - s) m = 1"
      by (auto simp: n_rounds_def)
    ultimately show ?thesis
      by (simp add: unfold rounds_def del: length_take)
  next
    case False
    then have gt: "int (length ?page) < m" by simp
    then have pos: "\<not> m - int (min (nat m) (length ?page)) \<le> 0" by simp
    have tk: "take (nat m) ?page = ?page"
    proof (rule take_all)
      from gt show "length ?page \<le> nat m" by linarith
    qed
    show ?thesis
    proof (cases "length ?page < 25")
      case True
      then have short: "length ?all - s < 25" by simp
      then have "?page = drop s ?all" by simp
      moreover have "take (nat m) (drop s ?all) = drop s ?all" using gt short by simp
      moreover have "n_rounds (length ?all - s) m = 1"
        using gt short by (simp add: n_rounds_def)
      ultimately show ?thesis using pos True
        by (simp add: unfold rounds_def del: length_take)
    next
      case False
      then have full: "25 \<le> length ?all - s" and l25: "length ?page = 25" by simp_all
      have m25: "1 \<le> m - 25" using gt l25 by simp
      have dec: "length (remote ?w1) - (s + 25) < length (remote w) - s" using full by simp
      have ih: "iterate_loop paged_env pageSpec exp cql (int (s + 25)) (m - 25) (acc @ ?page) ?w1 =
           Some ((acc @ ?page) @ take (nat (m - 25)) (drop (s + 25) (remote ?w1)), Inr (),
                 ?w1\<lparr>calls := calls ?w1 @ rounds (query_of pageSpec cql) (join_expand exp) (s + 25)
                                        (n_rounds (length (remote ?w1) - (s + 25)) (m - 25))\<rparr>)"
        by (rule less.hyps [OF dec m25])
      have nr: "n_rounds (length ?all - s) m = Suc (n_rounds (length ?all - (s + 25)) (m - 25))"
        using full m25 by (auto simp: n_rounds_def) 
      have tk2: "?page @ take (nat (m - 25)) (drop (s + 25) ?all) = take (nat m) (drop s ?all)"
      proof -
        have "nat m = 25 + nat (m - 25)" using m25 by simp
        then show ?thesis by (simp add: take_add add.commute)
      qed
      have i25: "int s + 25 = int (s + 25)" by simp
      show ?thesis using pos False l25 ih tk tk2
        by (simp add: unfold i25 nr rounds_Suc del: length_take of_nat_add)
    qed
  qed
qed

lemma div25_bounds:
  fixes d :: nat
  assumes "n = d div 25"
  shows "d < 25 * n + 25" and "25 * n \<le> d"
proof -
  have "d = 25 * (d div 25) + d mod 25" by simp
  moreover have "d mod 25 < 25" by simp
  ultimately show "d < 25 * n + 25" and "25 * n \<le> d"
    unfolding assms by linarith+
qed

text \<open>
  With a counter of at least one, \<open>iterate\<close> on the paged remote yields the first \<open>N\<close> of the
  items from the start offset, in the order of the collection.
\<close>

lemma iterate_limit_positive:
  fixes w :: "page list world"
  assumes "1 \<le> N"
  shows "iterate paged_env pageSpec exp cql (Some (int s)) (Some N) w =
           Some (take (nat N) (drop s (remote w)), Inr (),
                 w\<lparr>calls := calls w @ rounds (query_of pageSpec cql) (join_expand exp) s
                                        (n_rounds (length (remote w) - s) N)\<rparr>)"
  using assms iterate_loop_paged [of N pageSpec exp cql s "[]" w]
  by (simp add: iterate_def)

text \<open>
  Claim C2. With \<open>limit = N\<close> the iterator is meant to yield \<open>min N total\<close> items, and nothing
  for \<open>N = 0\<close>. The counter is tested only after an item has been yielded, so with
  \<open>limit = 0\<close> and a collection of three items the first item is yielded before the loop
  is left.
\<close>

theorem iterate_limit_zero:
  "iterate paged_env [] (ExpandList []) ''type = page'' None (Some 0)
     (start [item ''1'', item ''2'', item ''3'']) =
   Some ([item ''1''], Inr (),
         \<lparr>calls = [FindPages ''type = page'' [] 25 0],
          remote = [item ''1'', item ''2'', item ''3'']\<rparr>)"
  by (simp add: iterate_def iterate_loop.simps findPages_def get_def request_def paged_env_def
      paged_transport_def log_call_def start_def ok_def query_of_def)

text \<open>
  Claim C7, as stated: without a limit, against a remote whose last page is short, the
  iterator ends after exactly that short page. The absent limit is the counter
  10000000000; on a collection of 10000000001 items the iterator ends when the counter is
  used up, after 10000000000 items, and the short last page with the remaining item is
  never reached.
\<close>

theorem iterate_unbounded_counterexample:
  "map_option (length \<circ> fst)
     (iterate paged_env [] (ExpandList []) ''type = page'' None None
        (start (replicate 10000000001 (item ''1'')))) = Some 10000000000"
  using iterate_loop_paged
    [of 10000000000 "[]" "ExpandList []" "''type = page''" 0 "[]"
        "start (replicate 10000000001 (item ''1''))"]
  by (simp add: iterate_def start_def)

text \<open>
  Claim C7, amended: without a limit, against a remote that serves a collection with fewer
  than 10000000000 items from the start offset on, the iterator ends and has yielded all
  these items in order. Every round asks for 25 items, the offsets advance by 25 from the
  start offset, and the last round is the first one whose page is short: all pages before
  it hold 25 items.
\<close>

theorem iterate_unbounded:
  fixes w :: "page list world"
  assumes "length (remote w) - s < 10000000000"
    and "s = (case st of None \<Rightarrow> 0 | Some k \<Rightarrow> k)"
    and "n = (length (remote w) - s) div 25"
  shows "iterate paged_env pageSpec exp cql (map_option int st) None w =
           Some (drop s (remote w), Inr (),
                 w\<lparr>calls := calls w @ rounds (query_of pageSpec cql) (join_expand exp) s (Suc n)\<rparr>)
         \<and> length (take 25 (drop (s + 25 * n) (remote w))) < 25
         \<and> (\<forall>k<n. length (take 25 (drop (s + 25 * k) (remote w))) = 25)"
proof -
  have m: "int (length (remote w) - s) < 10000000000" using assms(1) by simp
  then have nr: "n_rounds (length (remote w) - s) 10000000000 = Suc n"
    using assms(3) by (simp add: n_rounds_def)
  have tk: "take (nat 10000000000) (drop s (remote w)) = drop s (remote w)"
    using assms(1) by (intro take_all) simp
  have run: "iterate paged_env pageSpec exp cql (map_option int st) None w =
           Some (drop s (remote w), Inr (),
                 w\<lparr>calls := calls w @ rounds (query_of pageSpec cql) (join_expand exp) s (Suc n)\<rparr>)"
    using iterate_loop_paged [of 10000000000 pageSpec exp cql s "[]" w] nr tk assms(2)
    by (cases st) (simp_all add: iterate_def)
  have short: "length (take 25 (drop (s + 25 * n) (remote w))) < 25"
  proof -
    have "length (remote w) - (s + 25 * n) < 25"
      using div25_bounds(1) [OF assms(3)] by linarith
    then show ?thesis by simp
  qed
  have full: "\<forall>k<n. length (take 25 (drop (s + 25 * k) (remote w))) = 25"
  proof (intro allI impI)
    fix k assume "k < n"
    then have "25 \<le> length (remote w) - (s + 25 * k)"
      using div25_bounds(2) [OF assms(3)] by linarith
    then show "length (take 25 (drop (s + 25 * k) (remote w))) = 25" by simp
  qed
  from run short full show ?thesis by simp
qed

theorem iterate_unbounded_witness:
  "iterate paged_env [] (ExpandList []) ''type = page'' None None
     (start (replicate 30 (item ''1''))) =
   Some (replicate 30 (item ''1''), Inr (),
         \<lparr>calls = [FindPages ''type = page'' [] 25 0, FindPages ''type = page'' [] 25 25],
          remote = replicate 30 (item ''1'')\<rparr>)
   \<and> length (take 25 (drop 25 (replicate 30 (item ''1'')))) = 5
   \<and> length (take 25 (drop 0 (replicate 30 (item ''1'')))) = 25"
  using iterate_unbounded
    [of "start (replicate 30 (item ''1''))" 0 None 1 "[]" "ExpandList []" "''type = page''"]
  by (simp add: start_def rounds_def query_of_def)

section \<open>Properties of the property filter\<close>

lemmas filter_eval =
  page_passes_def page_prop_filterer_def PAGE_PROP_FILTER_def spec_passes_def spec_holds_def
  props_a1_def is_dot_def newline_def

text \<open>
  Once \<open>cmp\<close> is bound to an operator, the loop judges every spec by that operator, whatever
  operator the spec carries.
\<close>

lemma filterer_loop_one_operator:
  "filterer_loop getp (Some c) pg fs result =
     Inr (result \<and> list_all (\<lambda>f. spec_holds getp pg (f\<lparr>f_cmp := c\<rparr>)) fs)"
  by (induction fs arbitrary: result) (auto simp: spec_holds_def split: propval.splits)

text \<open>
  Claim C3. A page is meant to pass iff every spec holds under that spec's own comparison
  operator. \<open>page_prop_filterer\<close> compares with the variable \<open>cmp\<close> of the enclosing function,
  which holds the operator of the last filter string that was parsed, for every spec.
  For the filters \<open>a==1\<close> and \<open>b!=2\<close> and a page with \<open>a = 1\<close> and \<open>b = 3\<close> both specs hold
  under their own operators, and the source rejects the page, because it tests \<open>a != 1\<close>.
\<close>

theorem page_passes_uses_last_operator:
  "parse_filters [FilterString ''a==1'', FilterString ''b!=2''] [] None =
     ([\<lparr>f_name = ''a'', f_cmp = ''='', f_value = PStr ''1''\<rparr>,
       \<lparr>f_name = ''b'', f_cmp = ''!'', f_value = PStr ''2''\<rparr>], Some ''!'')
   \<and> spec_passes props_a1
         [\<lparr>f_name = ''a'', f_cmp = ''='', f_value = PStr ''1''\<rparr>,
          \<lparr>f_name = ''b'', f_cmp = ''!'', f_value = PStr ''2''\<rparr>] (item ''1'') = True
   \<and> page_passes props_a1 (Some [FilterString ''a==1'', FilterString ''b!=2'']) (item ''1'')
         = Inr False"
  by (simp add: filter_eval)

section \<open>Properties of the page tree synchronizer\<close>

subsection \<open>Calls are only appended\<close>

lemma adds_iff: "adds P w w' \<longleftrightarrow> (\<exists>cs. calls w' = calls w @ cs \<and> list_all P cs)"
proof
  assume "adds P w w'"
  then have "calls w' = calls w @ drop (length (calls w)) (calls w')"
    and "list_all P (drop (length (calls w)) (calls w'))"
    unfolding adds_def by (metis append_take_drop_id, simp)
  then show "\<exists>cs. calls w' = calls w @ cs \<and> list_all P cs" by blast
next
  assume "\<exists>cs. calls w' = calls w @ cs \<and> list_all P cs"
  then show "adds P w w'" unfolding adds_def by auto
qed

lemma adds_refl: "adds P w w"
  by (simp add: adds_def)

lemma adds_trans: "adds P w w1 \<Longrightarrow> adds P w1 w2 \<Longrightarrow> adds P w w2"
  unfolding adds_iff by auto

lemma adds_log: "P c \<Longrightarrow> calls w' = calls w @ [c] \<Longrightarrow> adds P w w'"
  unfolding adds_iff by auto

lemma adds_mono: "adds P w w' \<Longrightarrow> (\<And>c. P c \<Longrightarrow> Q c) \<Longrightarrow> adds Q w w'"
  unfolding adds_iff by (auto simp: list_all_iff)

lemma request_calls: "request env m e ps w = (out, w') \<Longrightarrow> calls w' = calls w"
  by (auto simp: request_def split: prod.splits sum.splits if_splits)

lemma getPage_calls:
  "getPage env page_id exp w = (out, w') \<Longrightarrow> calls w' = calls w @ [GetPage page_id (join_expand exp)]"
  by (auto simp: getPage_def get_def log_call_def split: prod.splits sum.splits dest!: request_calls)

lemma getPage_not_None: "getPage env page_id exp w = (Inr v, w') \<Longrightarrow> v \<noteq> None"
  by (auto simp: getPage_def split: prod.splits sum.splits)

lemma createPage_calls:
  "createPage env space title storage parent w = (out, w')
     \<Longrightarrow> calls w' = calls w @ [CreatePage space title storage parent]"
  by (auto simp: createPage_def post_def log_call_def dest!: request_calls)

lemma updatePage_calls:
  "updatePage env page_id title version storage w = (out, w')
     \<Longrightarrow> calls w' = calls w @ [UpdatePage page_id title version storage]"
  by (auto simp: updatePage_def put_def log_call_def dest!: request_calls)

lemma getChildren_calls:
  "getChildren env page_id type w = (out, w') \<Longrightarrow> calls w' = calls w @ [GetChildren page_id type]"
  by (auto simp: getChildren_def get_def log_call_def
      split: prod.splits sum.splits payload.splits dest!: request_calls)

lemma deletePage_calls:
  "deletePage env page_id w = (out, w') \<Longrightarrow> calls w' = calls w @ [DeletePage page_id]"
  by (auto simp: deletePage_def log_call_def split: prod.splits)


lemma update_target_adds:
  "update_target env source_page target_page w = (out, w') \<Longrightarrow> adds quiet w w'"
  by (auto simp: update_target_def adds_refl split: sum.splits prod.splits
      dest!: updatePage_calls intro!: adds_log)

lemma copy_top_adds:
  assumes "copy_top env source target parent space w = (out, w')"
  shows "adds quiet w w'"
proof -
  have g: "\<And>i e w out w'. getPage env i e w = (out, w') \<Longrightarrow> adds quiet w w' \<and> out \<noteq> Inr None"
  proof -
    fix i e w out w'
    assume h: "getPage env i e w = (out, w')"
    have "adds quiet w w'" using getPage_calls [OF h] by (intro adds_log) auto
    moreover have "out \<noteq> Inr None" using getPage_not_None h by blast
    ultimately show "adds quiet w w' \<and> out \<noteq> Inr None" by simp
  qed
  show ?thesis using assms
    by (auto simp: copy_top_def adds_refl split: sum.splits prod.splits option.splits if_splits
        dest!: g update_target_adds intro: adds_trans)
qed

lemma fetch_subpages_adds:
  assumes "fetch_subpages env source_page target_page w = (out, w')"
  shows "adds quiet w w'"
proof -
  have g: "\<And>i t w out w'. getChildren env i t w = (out, w') \<Longrightarrow> adds quiet w w'"
    by (auto dest!: getChildren_calls intro!: adds_log)
  show ?thesis using assms
    by (auto simp: fetch_subpages_def adds_refl split: sum.splits prod.splits
        dest!: g intro: adds_trans)
qed

lemma for_each_adds:
  assumes "\<And>x w out w'. body x w = Some (out, w') \<Longrightarrow> adds P w w'"
  shows "for_each body xs w = Some (out, w') \<Longrightarrow> adds P w w'"
proof (induction xs arbitrary: w)
  case Nil
  then show ?case by (simp add: adds_refl)
next
  case (Cons x xs)
  then show ?case
    by (auto split: option.splits sum.splits prod.splits dest!: assms intro: adds_trans)
qed

lemma delete_orphans_adds:
  "delete_orphans env source_subpage rest w = (out, w')
     \<Longrightarrow> adds (\<lambda>c. \<exists>t p. c = DeletePage (pg_id p) \<and> (t, p) \<in> set rest
                       \<and> map_of source_subpage t = None) w w'"
proof (induction rest arbitrary: w)
  case Nil
  then show ?case by (simp add: adds_refl)
next
  case (Cons a rest)
  obtain t p where a: "a = (t, p)" by (cases a)
  let ?P = "\<lambda>xs c. \<exists>t p. c = DeletePage (pg_id p) \<and> (t, p) \<in> set xs
                       \<and> map_of source_subpage t = None"
  have weaken: "\<And>w1 w2. adds (?P rest) w1 w2 \<Longrightarrow> adds (?P (a # rest)) w1 w2"
    by (erule adds_mono) auto
  show ?case
  proof (cases "map_of source_subpage t = None")
    case False
    with Cons.prems a have "delete_orphans env source_subpage rest w = (out, w')" by simp
    then show ?thesis by (intro weaken Cons.IH)
  next
    case True
    obtain r w1 where d: "deletePage env (pg_id p) w = (r, w1)" by (cases "deletePage env (pg_id p) w")
    have step: "adds (?P (a # rest)) w w1"
      using deletePage_calls [OF d] True a by (intro adds_log) auto
    show ?thesis
    proof (cases r)
      case (Inl e)
      with Cons.prems a True d have "w' = w1" by simp
      with step show ?thesis by simp
    next
      case (Inr u)
      with Cons.prems a True d have "delete_orphans env source_subpage rest w1 = (out, w')" by simp
      then have "adds (?P (a # rest)) w1 w'" by (intro weaken Cons.IH)
      with step show ?thesis by (rule adds_trans)
    qed
  qed
qed


lemma copyPage_no_delete:
  "copyPage env depth source target recursive parent space False w = Some (out, w')
     \<Longrightarrow> adds quiet w w'"
proof (induction depth arbitrary: source target recursive parent w out w')
  case 0
  then show ?case by simp
next
  case (Suc depth)
  obtain r1 w1 where top: "copy_top env source target parent space w = (r1, w1)"
    by (cases "copy_top env source target parent space w")
  have a1: "adds quiet w w1" using top by (rule copy_top_adds)
  show ?case
  proof (cases r1)
    case (Inl e)
    with Suc.prems top have "w' = w1" by (simp add: and_then_def)
    with a1 show ?thesis by simp
  next
    case (Inr pages)
    obtain source_page target_page where pages: "pages = (source_page, target_page)"
      by (cases pages)
    show ?thesis
    proof (cases recursive)
      case False
      with Suc.prems top Inr pages have "w' = w1" by (simp add: and_then_def)
      with a1 show ?thesis by simp
    next
      case True
      obtain r2 w2 where sub: "fetch_subpages env source_page target_page w1 = (r2, w2)"
        by (cases "fetch_subpages env source_page target_page w1")
      have a2: "adds quiet w w2"
        using a1 fetch_subpages_adds [OF sub] by (rule adds_trans)
      show ?thesis
      proof (cases r2)
        case (Inl e)
        with Suc.prems top Inr pages True sub have "w' = w2" by (simp add: and_then_def)
        with a2 show ?thesis by simp
      next
        case (Inr subpages)
        obtain ss ts where subpages: "subpages = (ss, ts)" by (cases subpages)
        let ?body = "\<lambda>(title, pg) w.
                            (case item_field ''id'' pg_id target_page of
                               Inl e \<Rightarrow> Some (Inl e, w)
                             | Inr target_id \<Rightarrow>
                                 copyPage env depth (pg_id pg)
                                   (Some (case map_of (dict_of ts) title of
                                            Some t \<Rightarrow> pg_id t
                                          | None \<Rightarrow> title))
                                   True (Some target_id) space False w)"
        have body: "\<And>x w out w'. ?body x w = Some (out, w') \<Longrightarrow> adds quiet w w'"
          by (auto split: prod.splits sum.splits simp: adds_refl dest: Suc.IH)
        from Suc.prems [unfolded True [THEN eqTrueI]] top \<open>r1 = Inr pages\<close> pages sub Inr subpages
        have "(w' = w2) \<or> (\<exists>r. for_each ?body (items env (dict_of ss)) w2 = Some (r, w'))"
          by (auto simp: and_then_def Let_def split: if_splits option.splits sum.splits prod.splits)
        then show ?thesis
        proof
          assume "w' = w2"
          with a2 show ?thesis by simp
        next
          assume "\<exists>r. for_each ?body (items env (dict_of ss)) w2 = Some (r, w')"
          then obtain r where "for_each ?body (items env (dict_of ss)) w2 = Some (r, w')" ..
          then have "adds quiet w2 w'"
            using body by (rule for_each_adds [where body = ?body, rotated])
          with a2 show ?thesis by (rule adds_trans)
        qed
      qed
    qed
  qed
qed


subsection \<open>Dictionaries of titled pages\<close>

lemma foldl_update_keys:
  assumes "distinct (map fst d)"
  shows "distinct (map fst (foldl (\<lambda>d (k, v). AList.update k v d) d xs))
         \<and> fst ` set (foldl (\<lambda>d (k, v). AList.update k v d) d xs) = fst ` set d \<union> fst ` set xs
         \<and> set (foldl (\<lambda>d (k, v). AList.update k v d) d xs) \<subseteq> set d \<union> set xs"
  using assms
proof (induction xs arbitrary: d)
  case Nil
  then show ?case by simp
next
  case (Cons x xs)
  obtain k v where x: "x = (k, v)" by (cases x)
  have d': "distinct (map fst (AList.update k v d))"
    using Cons.prems by (simp add: AList.distinct_update)
  have keys: "fst ` set (AList.update k v d) = insert k (fst ` set d)"
    by (simp add: AList.dom_update)
  have sub: "set (AList.update k v d) \<subseteq> insert (k, v) (set d)"
    by (induction d) auto
  from Cons.IH [OF d'] keys sub show ?case
    by (simp add: x) blast
qed

lemma dict_of_distinct: "distinct (map fst (dict_of xs))"
  and dict_of_keys: "fst ` set (dict_of xs) = fst ` set xs"
  and dict_of_subset: "set (dict_of xs) \<subseteq> set xs"
  using foldl_update_keys [of "[]" xs] by (simp_all add: dict_of_def)

lemma dict_of_length: "length (dict_of xs) = length xs \<longleftrightarrow> distinct (map fst xs)"
proof -
  have "length (dict_of xs) = card (fst ` set (dict_of xs))"
    using distinct_card [OF dict_of_distinct [of xs]] by simp
  also have "\<dots> = card (set (map fst xs))" by (simp add: dict_of_keys)
  finally have "length (dict_of xs) = card (set (map fst xs))" .
  moreover have "card (set (map fst xs)) = length (map fst xs) \<longleftrightarrow> distinct (map fst xs)"
    using card_distinct distinct_card by blast
  ultimately show ?thesis by simp
qed

lemma map_of_dict_of_None: "map_of (dict_of xs) k = None \<longleftrightarrow> k \<notin> fst ` set xs"
  by (simp add: map_of_eq_None_iff dict_of_keys)

lemma set_titled: "set (titled cs) = (\<lambda>p. (pg_title p, p)) ` set cs"
  by (simp add: titled_def)

lemma titled_keys: "fst ` set (titled cs) = pg_title ` set cs"
  by (auto simp: set_titled image_iff)

lemma distinct_titled: "distinct (map fst (titled cs)) \<longleftrightarrow> distinct (map pg_title cs)"
  by (auto simp: titled_def distinct_map inj_on_def)

subsection \<open>The control flow of one level\<close>

lemma copyPage_Suc_cases:
  assumes "copyPage env (Suc depth) source target recursive parent space delete w = Some (out, w')"
  obtains
    (top_raises) e where
      "copy_top env source target parent space w = (Inl e, w')" "out = Inl e"
  | (not_recursive) sp tp where
      "copy_top env source target parent space w = (Inr (sp, tp), w')"
      "\<not> recursive" "out = Inr None"
  | (fetch_raises) sp tp w1 e where
      "copy_top env source target parent space w = (Inr (sp, tp), w1)"
      "fetch_subpages env sp tp w1 = (Inl e, w')" "out = Inl e"
  | (duplicates) sp tp w1 ss ts where
      "copy_top env source target parent space w = (Inr (sp, tp), w1)"
      "fetch_subpages env sp tp w1 = (Inr (ss, ts), w')"
      "\<not> distinct (map fst ss) \<or> \<not> distinct (map fst ts)" "out = Inl AssertionError"
  | (child_raises) sp tp w1 ss ts w2 e where
      "copy_top env source target parent space w = (Inr (sp, tp), w1)"
      "fetch_subpages env sp tp w1 = (Inr (ss, ts), w2)"
      "for_each (child_call env depth tp (dict_of ts) True space) (items env (dict_of ss)) w2
         = Some (Inl e, w')"
      "out = Inl e"
  | (no_prune) sp tp w1 ss ts w2 where
      "copy_top env source target parent space w = (Inr (sp, tp), w1)"
      "fetch_subpages env sp tp w1 = (Inr (ss, ts), w2)"
      "for_each (child_call env depth tp (dict_of ts) True space) (items env (dict_of ss)) w2
         = Some (Inr (), w')"
      "\<not> delete" "out = Inr None"
  | (prune) sp tp w1 ss ts w2 w3 r where
      "copy_top env source target parent space w = (Inr (sp, tp), w1)"
      "fetch_subpages env sp tp w1 = (Inr (ss, ts), w2)"
      "for_each (child_call env depth tp (dict_of ts) True space) (items env (dict_of ss)) w2
         = Some (Inr (), w3)"
      "delete" "delete_orphans env (dict_of ss) (items env (dict_of ts)) w3 = (r, w')"
      "out = (case r of Inl e \<Rightarrow> Inl e | Inr u \<Rightarrow> Inr None)"
proof (cases recursive)
  case False
  with assms that(1,2) show thesis
    by (auto simp: and_then_def split: prod.splits sum.splits)
next
  case True
  note run = assms [unfolded True [THEN eqTrueI]]
  from run that(1,3,4,5,6,7) show thesis
    by (simp add: and_then_def Let_def dict_of_length
        split: prod.splits sum.splits if_splits option.splits)
qed

lemma fetch_subpages_items:
  assumes "getChildren env (pg_id sp) (Some ''page'') w1 = (Inr source_children, w2)"
    and "getChildren env (pg_id tp) (Some ''page'') w2 = (Inr target_children, w3)"
  shows "fetch_subpages env (Some (Item sp)) (Some (Item tp)) w1 =
           (Inr (titled source_children, titled target_children), w3)"
  using assms by (simp add: fetch_subpages_def)

lemma copyPage_never_creates:
  assumes "copyPage env depth source target recursive parent space delete w = Some (out, w')"
  shows "adds (\<lambda>c. \<not> is_create c) w w'"
proof (cases depth)
  case 0
  with assms show ?thesis by simp
next
  case (Suc d)
  have top: "\<And>r w1. copy_top env source target parent space w = (r, w1)
               \<Longrightarrow> adds (\<lambda>c. \<not> is_create c) w w1"
    by (drule copy_top_adds, erule adds_mono) simp
  have sub: "\<And>sp tp r w1 w2. fetch_subpages env sp tp w1 = (r, w2)
               \<Longrightarrow> adds (\<lambda>c. \<not> is_create c) w1 w2"
    by (drule fetch_subpages_adds, erule adds_mono) simp
  have loop: "\<And>tp ts xs r w2 w3.
      for_each (child_call env d tp ts True space) xs w2 = Some (r, w3)
        \<Longrightarrow> adds (\<lambda>c. \<not> is_create c) w2 w3"
  proof -
    fix tp ts xs r w2 w3
    assume l: "for_each (child_call env d tp ts True space) xs w2 = Some (r, w3)"
    have body: "\<And>x w out w'. child_call env d tp ts True space x w = Some (out, w')
                  \<Longrightarrow> adds quiet w w'"
      by (auto split: prod.splits sum.splits simp: adds_refl dest: copyPage_no_delete)
    from l body have "adds quiet w2 w3"
      by (rule for_each_adds [where body = "child_call env d tp ts True space", rotated])
    then show "adds (\<lambda>c. \<not> is_create c) w2 w3" by (rule adds_mono) simp
  qed
  have del: "\<And>ss ts r w3 w4. delete_orphans env ss ts w3 = (r, w4)
               \<Longrightarrow> adds (\<lambda>c. \<not> is_create c) w3 w4"
    by (drule delete_orphans_adds, erule adds_mono) auto
  from assms [unfolded Suc] show ?thesis
    by (cases rule: copyPage_Suc_cases) (blast intro: adds_trans top sub loop del)+
qed


text \<open>
  Claim C1. For the source tree \<open>A{B, C{D}}\<close> and a target \<open>NewA\<close> that does not exist yet,
  \<open>copyPage\<close> is meant to take the CREATE branch and to issue four create calls. The CREATE
  branch is guarded by \<open>target_page is None\<close>, and \<open>getPage\<close> never returns \<open>None\<close>: a fetch
  that the service answers with status 404 makes \<open>request\<close> raise \<open>ConfluenceError\<close>, which
  \<open>copyPage\<close> does not handle. The run ends with that exception after the two fetches, and
  no page is created.
\<close>

theorem copyPage_new_target:
  "copyPage wiki_env 3 ''A'' (Some ''NewA'') True None (Some ''SPACE'') False (start tree_ABCD) =
     Some (Inl (ConfluenceError ''not found''),
           \<lparr>calls = [GetPage ''A'' ''body.storage,space'', GetPage ''NewA'' ''version,space''],
            remote = tree_ABCD\<rparr>)"
  by code_simp

text \<open>
  What the source file alone does with an orphan: \<open>self.deletePage\<close> is not defined, so the
  first orphaned child ends the run with \<open>AttributeError\<close>, and nothing is deleted.
\<close>

lemma copyPage_prune_without_deletePage:
  "copyPage (wiki_env\<lparr>deletePage_impl := deletePage_undefined\<rparr>) 2 ''A'' (Some ''T'') True None None
     True (start prune_wiki)
   = Some (Inl (AttributeError ''deletePage''),
           \<lparr>calls = [GetPage ''A'' ''body.storage,space'', GetPage ''T'' ''version,space'',
                     UpdatePage ''T'' ''A'' 1 ''a'',
                     GetChildren ''A'' (Some ''page''), GetChildren ''T'' (Some ''page''),
                     GetPage ''B'' ''body.storage,space'', GetPage ''U'' ''version,space'',
                     UpdatePage ''U'' ''B'' 1 ''b'',
                     GetChildren ''B'' (Some ''page''), GetChildren ''U'' (Some ''page''),
                     DeletePage ''X''],
            remote = prune_wiki\<rparr>)"
  by code_simp

text \<open>
  Claim C5. When the children of the source, or the children of the target, fetched at
  some level contain two pages of one title, the call at that level raises
  \<open>AssertionError\<close>, and the world is the one right after the two listings of children: since
  the top of the level, only these two \<open>getChildren\<close> calls were made, and no page was
  created or updated for a child.
\<close>

theorem copyPage_duplicate_titles:
  assumes "copy_top env source target parent space w = (Inr (Some (Item sp), Some (Item tp)), w1)"
    and "getChildren env (pg_id sp) (Some ''page'') w1 = (Inr source_children, w2)"
    and "getChildren env (pg_id tp) (Some ''page'') w2 = (Inr target_children, w3)"
    and "\<not> distinct (map pg_title source_children) \<or> \<not> distinct (map pg_title target_children)"
  shows "copyPage env (Suc depth) source target True parent space delete w
           = Some (Inl AssertionError, w3)
         \<and> calls w3 = calls w1 @ [GetChildren (pg_id sp) (Some ''page''),
                                   GetChildren (pg_id tp) (Some ''page'')]"
proof -
  have "copyPage env (Suc depth) source target True parent space delete w
          = Some (Inl AssertionError, w3)"
    using assms(1,4) fetch_subpages_items [OF assms(2,3)]
    by (auto simp: and_then_def Let_def dict_of_length distinct_titled)
  moreover have "calls w3 = calls w1 @ [GetChildren (pg_id sp) (Some ''page''),
                                        GetChildren (pg_id tp) (Some ''page'')]"
    using getChildren_calls [OF assms(2)] getChildren_calls [OF assms(3)] by simp
  ultimately show ?thesis by simp
qed

theorem copyPage_duplicate_titles_witness:
  "copyPage wiki_env (Suc 0) ''A'' (Some ''T'') True None None False (start dup_wiki)
     = Some (Inl AssertionError,
             \<lparr>calls = [GetPage ''A'' ''body.storage,space'', GetPage ''T'' ''version,space'',
                       UpdatePage ''T'' ''A'' 1 ''a'',
                       GetChildren ''A'' (Some ''page''), GetChildren ''T'' (Some ''page'')],
              remote = dup_wiki\<rparr>)"
proof -
  let ?c3 = "[GetPage ''A'' ''body.storage,space'', GetPage ''T'' ''version,space'',
              UpdatePage ''T'' ''A'' 1 ''a'']"
  let ?w1 = "\<lparr>calls = ?c3, remote = dup_wiki\<rparr>"
  let ?w2 = "\<lparr>calls = ?c3 @ [GetChildren ''A'' (Some ''page'')], remote = dup_wiki\<rparr>"
  let ?w3 = "\<lparr>calls = ?c3 @ [GetChildren ''A'' (Some ''page''), GetChildren ''T'' (Some ''page'')],
              remote = dup_wiki\<rparr>"
  have top: "copy_top wiki_env ''A'' (Some ''T'') None None (start dup_wiki)
               = (Inr (Some (Item (stored ''A'' ''A'' ''a'')), Some (Item (stored ''T'' ''A'' ''a''))), ?w1)"
    by code_simp
  have src: "getChildren wiki_env (pg_id (stored ''A'' ''A'' ''a'')) (Some ''page'') ?w1
               = (Inr [stored ''B1'' ''B'' ''b'', stored ''B2'' ''B'' ''b''], ?w2)"
    by code_simp
  have tgt: "getChildren wiki_env (pg_id (stored ''T'' ''A'' ''a'')) (Some ''page'') ?w2
               = (Inr [], ?w3)"
    by code_simp
  have dup: "\<not> distinct (map pg_title [stored ''B1'' ''B'' ''b'', stored ''B2'' ''B'' ''b''])
             \<or> \<not> distinct (map pg_title [])"
    by (simp add: stored_def)
  from copyPage_duplicate_titles [OF top src tgt dup, of 0 False] show ?thesis by simp
qed

text \<open>
  Claim C6, as stated: a successful call returns the target content item. The body of
  \<open>copyPage\<close> has no \<open>return\<close> statement: the call that updates the existing target \<open>T\<close>
  from the source \<open>A\<close> succeeds and returns \<open>None\<close>.
\<close>

theorem copyPage_returns_item_counterexample:
  "map_option fst
     (copyPage wiki_env 1 ''A'' (Some ''T'') False None None False (start prune_wiki))
   = Some (Inr None)"
  by code_simp

text \<open>
  Claim C6, amended: every successful call of \<open>copyPage\<close> returns \<open>None\<close>; the target page
  that was created or updated is not handed back to the caller.
\<close>

theorem copyPage_returns_None:
  assumes "copyPage env depth source target recursive parent space delete w = Some (Inr v, w')"
  shows "v = None"
proof (cases depth)
  case 0
  with assms show ?thesis by simp
next
  case (Suc d)
  from assms [unfolded Suc] show ?thesis
    by (cases rule: copyPage_Suc_cases) (auto split: sum.splits)
qed

theorem copyPage_returns_None_witness:
  "copyPage wiki_env 1 ''A'' (Some ''T'') False None None True (start prune_wiki)
     = Some (Inr None,
             \<lparr>calls = [GetPage ''A'' ''body.storage,space'', GetPage ''T'' ''version,space'',
                       UpdatePage ''T'' ''A'' 1 ''a''],
              remote = prune_wiki\<rparr>)"
proof -
  have run: "copyPage wiki_env 1 ''A'' (Some ''T'') False None None True (start prune_wiki)
     = Some (Inr None,
             \<lparr>calls = [GetPage ''A'' ''body.storage,space'', GetPage ''T'' ''version,space'',
                       UpdatePage ''T'' ''A'' 1 ''a''],
              remote = prune_wiki\<rparr>)"
    by code_simp
  from copyPage_returns_None [OF run] run show ?thesis by simp
qed

text \<open>
  Claim C10. In a run with recursion and pruning enabled, let the top level have fetched
  the children of the source and of the target. Then every \<open>deletePage\<close> call of the whole
  run is for a direct child of the top-level target whose title no child of the source has.
  The calls for the children are made with \<open>delete = False\<close> and delete nothing, whatever the
  target has below the first level. The order in which a dictionary enumerates its
  entries is arbitrary, as long as it enumerates exactly its entries.
\<close>

theorem copyPage_prunes_first_level_only:
  assumes "\<forall>d. set (items env d) = set d"
    and "copy_top env source target parent space w = (Inr (Some (Item sp), Some (Item tp)), w1)"
    and "getChildren env (pg_id sp) (Some ''page'') w1 = (Inr source_children, w2)"
    and "getChildren env (pg_id tp) (Some ''page'') w2 = (Inr target_children, w3)"
    and "copyPage env depth source target True parent space True w = Some (out, w')"
  shows "\<exists>cs. calls w' = calls w @ cs
           \<and> (\<forall>c\<in>set cs. is_delete c \<longrightarrow>
                 (\<exists>p\<in>set target_children. c = DeletePage (pg_id p)
                    \<and> pg_title p \<notin> pg_title ` set source_children))"
proof -
  let ?Q = "\<lambda>c. is_delete c \<longrightarrow>
                 (\<exists>p\<in>set target_children. c = DeletePage (pg_id p)
                    \<and> pg_title p \<notin> pg_title ` set source_children)"
  let ?ss = "titled source_children" and ?ts = "titled target_children"
  have sub: "fetch_subpages env (Some (Item sp)) (Some (Item tp)) w1 = (Inr (?ss, ?ts), w3)"
    using assms(3,4) by (rule fetch_subpages_items)
  have a13: "adds ?Q w w3"
  proof -
    have "adds quiet w w3"
      using copy_top_adds [OF assms(2)] fetch_subpages_adds [OF sub] by (rule adds_trans)
    then show ?thesis by (rule adds_mono) simp
  qed
  have loop: "\<And>d r w4. for_each (child_call env d (Some (Item tp)) (dict_of ?ts) True space)
                 (items env (dict_of ?ss)) w3 = Some (r, w4) \<Longrightarrow> adds ?Q w3 w4"
  proof -
    fix d r w4
    assume l: "for_each (child_call env d (Some (Item tp)) (dict_of ?ts) True space)
                 (items env (dict_of ?ss)) w3 = Some (r, w4)"
    have body: "\<And>x w out w'. child_call env d (Some (Item tp)) (dict_of ?ts) True space x w
                   = Some (out, w') \<Longrightarrow> adds quiet w w'"
      by (auto split: prod.splits sum.splits simp: adds_refl dest: copyPage_no_delete)
    from l body have "adds quiet w3 w4"
      by (rule for_each_adds
          [where body = "child_call env d (Some (Item tp)) (dict_of ?ts) True space", rotated])
    then show "adds ?Q w3 w4" by (rule adds_mono) simp
  qed
  have del: "\<And>r w4 w5. delete_orphans env (dict_of ?ss) (items env (dict_of ?ts)) w4 = (r, w5)
               \<Longrightarrow> adds ?Q w4 w5"
  proof -
    fix r w4 w5
    assume "delete_orphans env (dict_of ?ss) (items env (dict_of ?ts)) w4 = (r, w5)"
    then have "adds (\<lambda>c. \<exists>t p. c = DeletePage (pg_id p) \<and> (t, p) \<in> set (items env (dict_of ?ts))
                       \<and> map_of (dict_of ?ss) t = None) w4 w5"
      by (rule delete_orphans_adds)
    then show "adds ?Q w4 w5"
    proof (rule adds_mono)
      fix c
      assume "\<exists>t p. c = DeletePage (pg_id p) \<and> (t, p) \<in> set (items env (dict_of ?ts))
                       \<and> map_of (dict_of ?ss) t = None"
      then obtain t p where c: "c = DeletePage (pg_id p)"
        and tp: "(t, p) \<in> set (items env (dict_of ?ts))"
        and none: "map_of (dict_of ?ss) t = None"
        by blast
      from tp assms(1) have "(t, p) \<in> set (dict_of ?ts)" by simp
      then have "(t, p) \<in> set ?ts" using dict_of_subset by blast
      then have p: "p \<in> set target_children" and t: "t = pg_title p"
        by (auto simp: set_titled)
      from none have "t \<notin> pg_title ` set source_children"
        by (simp add: map_of_dict_of_None titled_keys)
      with c p t show "?Q c" by blast
    qed
  qed
  have "adds ?Q w w'"
  proof (cases depth)
    case 0
    with assms(5) show ?thesis by simp
  next
    case (Suc d)
    from assms(5) [unfolded Suc] show ?thesis
    proof (cases rule: copyPage_Suc_cases)
      case (top_raises e)
      with assms(2) show ?thesis by simp
    next
      case (not_recursive sp tp)
      then show ?thesis by simp
    next
      case (fetch_raises sp' tp' w1' e)
      with assms(2) sub show ?thesis by simp
    next
      case (duplicates sp' tp' w1' ss ts)
      with assms(2) sub a13 show ?thesis by simp
    next
      case (child_raises sp' tp' w1' ss ts w2' e)
      from child_raises(1) assms(2)
      have e1: "sp' = Some (Item sp)" "tp' = Some (Item tp)" "w1' = w1" by simp_all
      from child_raises(2) sub e1
      have e2: "ss = ?ss" "ts = ?ts" "w2' = w3" by simp_all
      have "adds ?Q w3 w'" using child_raises(3) unfolding e1 e2 by (rule loop)
      with a13 show ?thesis by (rule adds_trans)
    next
      case (no_prune sp' tp' w1' ss ts w2')
      then show ?thesis by simp
    next
      case (prune sp' tp' w1' ss ts w2' w4 r)
      from prune(1) assms(2)
      have e1: "sp' = Some (Item sp)" "tp' = Some (Item tp)" "w1' = w1" by simp_all
      from prune(2) sub e1
      have e2: "ss = ?ss" "ts = ?ts" "w2' = w3" by simp_all
      have "adds ?Q w3 w4" using prune(3) unfolding e1 e2 by (rule loop)
      moreover have "adds ?Q w4 w'" using prune(5) unfolding e1 e2 by (rule del)
      ultimately show ?thesis using a13 by (blast intro: adds_trans)
    qed
  qed
  then show ?thesis by (simp add: adds_iff list_all_iff)
qed

theorem copyPage_prunes_first_level_only_witness:
  "copyPage wiki_env 2 ''A'' (Some ''T'') True None None True (start prune_wiki)
     = Some (Inr None,
             \<lparr>calls = [GetPage ''A'' ''body.storage,space'', GetPage ''T'' ''version,space'',
                       UpdatePage ''T'' ''A'' 1 ''a'',
                       GetChildren ''A'' (Some ''page''), GetChildren ''T'' (Some ''page''),
                       GetPage ''B'' ''body.storage,space'', GetPage ''U'' ''version,space'',
                       UpdatePage ''U'' ''B'' 1 ''b'',
                       GetChildren ''B'' (Some ''page''), GetChildren ''U'' (Some ''page''),
                       DeletePage ''X''],
              remote = [(stored ''A'' ''A'' ''a'', None), (stored ''B'' ''B'' ''b'', Some ''A''),
                        (stored ''T'' ''A'' ''a'', None), (stored ''U'' ''B'' ''b'', Some ''T''),
                        (stored ''Y'' ''Y'' ''y'', Some ''U'')]\<rparr>)
   \<and> (\<exists>cs. calls \<lparr>calls = [GetPage ''A'' ''body.storage,space'', GetPage ''T'' ''version,space'',
                       UpdatePage ''T'' ''A'' 1 ''a'',
                       GetChildren ''A'' (Some ''page''), GetChildren ''T'' (Some ''page''),
                       GetPage ''B'' ''body.storage,space'', GetPage ''U'' ''version,space'',
                       UpdatePage ''U'' ''B'' 1 ''b'',
                       GetChildren ''B'' (Some ''page''), GetChildren ''U'' (Some ''page''),
                       DeletePage ''X''],
              remote = [(stored ''A'' ''A'' ''a'', None), (stored ''B'' ''B'' ''b'', Some ''A''),
                        (stored ''T'' ''A'' ''a'', None), (stored ''U'' ''B'' ''b'', Some ''T''),
                        (stored ''Y'' ''Y'' ''y'', Some ''U'')]\<rparr>
             = calls (start prune_wiki) @ cs
           \<and> (\<forall>c\<in>set cs. is_delete c \<longrightarrow>
                 (\<exists>p\<in>set [stored ''U'' ''B'' ''b'', stored ''X'' ''X'' ''x''].
                    c = DeletePage (pg_id p)
                    \<and> pg_title p \<notin> pg_title ` set [stored ''B'' ''B'' ''b''])))"
proof -
  let ?c3 = "[GetPage ''A'' ''body.storage,space'', GetPage ''T'' ''version,space'',
              UpdatePage ''T'' ''A'' 1 ''a'']"
  let ?w1 = "\<lparr>calls = ?c3, remote = prune_wiki\<rparr>"
  let ?w2 = "\<lparr>calls = ?c3 @ [GetChildren ''A'' (Some ''page'')], remote = prune_wiki\<rparr>"
  let ?w3 = "\<lparr>calls = ?c3 @ [GetChildren ''A'' (Some ''page''), GetChildren ''T'' (Some ''page'')],
              remote = prune_wiki\<rparr>"
  have ord: "\<forall>d. set (items wiki_env d) = set d"
    by (simp add: wiki_env_def)
  have top: "copy_top wiki_env ''A'' (Some ''T'') None None (start prune_wiki)
               = (Inr (Some (Item (stored ''A'' ''A'' ''a'')), Some (Item (stored ''T'' ''A'' ''a''))), ?w1)"
    by code_simp
  have src: "getChildren wiki_env (pg_id (stored ''A'' ''A'' ''a'')) (Some ''page'') ?w1
               = (Inr [stored ''B'' ''B'' ''b''], ?w2)"
    by code_simp
  have tgt: "getChildren wiki_env (pg_id (stored ''T'' ''A'' ''a'')) (Some ''page'') ?w2
               = (Inr [stored ''U'' ''B'' ''b'', stored ''X'' ''X'' ''x''], ?w3)"
    by code_simp
  have run: "copyPage wiki_env 2 ''A'' (Some ''T'') True None None True (start prune_wiki)
     = Some (Inr None,
             \<lparr>calls = [GetPage ''A'' ''body.storage,space'', GetPage ''T'' ''version,space'',
                       UpdatePage ''T'' ''A'' 1 ''a'',
                       GetChildren ''A'' (Some ''page''), GetChildren ''T'' (Some ''page''),
                       GetPage ''B'' ''body.storage,space'', GetPage ''U'' ''version,space'',
                       UpdatePage ''U'' ''B'' 1 ''b'',
                       GetChildren ''B'' (Some ''page''), GetChildren ''U'' (Some ''page''),
                       DeletePage ''X''],
              remote = [(stored ''A'' ''A'' ''a'', None), (stored ''B'' ''B'' ''b'', Some ''A''),
                        (stored ''T'' ''A'' ''a'', None), (stored ''U'' ''B'' ''b'', Some ''T''),
                        (stored ''Y'' ''Y'' ''y'', Some ''U'')]\<rparr>)"
    by code_simp
  show ?thesis
    using run copyPage_prunes_first_level_only [OF ord top src tgt run] by (rule conjI)
qed

end
